theory Spec2Isabelle
  imports Complex_Main "HOL-Library.Multiset"
begin

section \<open>Evaluation notebook for the magnetic and topological classifiers\<close>

text \<open>
  The notebook \<^verbatim>\<open>models.ipynb\<close> loads two pre-trained classifiers and, for each of
  them, runs a five-fold cross-validation cell, a held-out accuracy cell and a
  classification-report cell.  The cells are embedded as functions that take the ambient
  notebook variables (\<^verbatim>\<open>X_train\<close>, \<^verbatim>\<open>y_train\<close>, \<^verbatim>\<open>clf\<close>, ...) and return the
  values they bind or print.  Labels are Python integers; scores are floating-point numbers
  in the notebook and are read here as the real numbers they approximate.
\<close>

subsection \<open>Errors\<close>

text \<open>Every exception that the called operations raise on the paths below is a Python
  \<^verbatim>\<open>ValueError\<close>; the constructors record which check raised it.\<close>

datatype error =
    InconsistentNumbersOfSamples
  | NSplitsTooSmall
  | NSplitsGreaterThanNSamples
  | TargetIsMulticlass
  | PosLabelNotValid
  | TargetNamesMismatch

subsection \<open>Array indexing\<close>

text \<open>\<^verbatim>\<open>a[idx]\<close> for an index array \<^verbatim>\<open>idx\<close>: the rows of \<^verbatim>\<open>a\<close> at the listed
  positions, in the listed order.  Every index array below comes out of the fold
  splitter and is within range (lemma \<open>KFold_split_in_range\<close>).\<close>

definition take_rows :: "'a list \<Rightarrow> nat list \<Rightarrow> 'a list" where
  "take_rows a idx = map (\<lambda>i. a ! i) idx"

subsection \<open>The fold splitter\<close>

text \<open>
  Modelled from the spec: \<^verbatim>\<open>KFold(n_splits=5, shuffle=True).split(X, y)\<close> is
  scikit-learn code and is not part of the repository's sources.  The spec (4.1) describes
  it as: shuffle the sample order once, partition it into \<open>k\<close> contiguous folds of
  near-equal size, not stratified by class; per fold a disjoint pair of train and test index
  sets.  The details the spec leaves open follow the library's documented behaviour: the
  first \<open>n mod k\<close> folds have size \<open>n div k + 1\<close> and the others \<open>n div k\<close>; the
  test and train index arrays of a fold are selected by a boolean mask and so come out in
  increasing order; the splitter rejects \<open>X\<close> and \<open>y\<close> of different lengths, fewer
  than two splits, and more splits than samples.  The random shuffle is the parameter
  \<open>shuffle\<close>: the function that the random generator applies to the index array.
\<close>

definition fold_sizes :: "nat \<Rightarrow> nat \<Rightarrow> nat list" where
  "fold_sizes n_splits n_samples =
     map (\<lambda>i. n_samples div n_splits + (if i < n_samples mod n_splits then 1 else 0))
       [0..<n_splits]"

fun test_chunks :: "nat list \<Rightarrow> nat \<Rightarrow> nat list \<Rightarrow> nat list list" where
  "test_chunks indices current [] = []"
| "test_chunks indices current (fold_size # rest) =
     take fold_size (drop current indices) # test_chunks indices (current + fold_size) rest"

definition iter_test_indices :: "(nat list \<Rightarrow> nat list) \<Rightarrow> nat \<Rightarrow> nat \<Rightarrow> nat list list" where
  "iter_test_indices shuffle n_splits n_samples =
     test_chunks (shuffle [0..<n_samples]) 0 (fold_sizes n_splits n_samples)"

definition train_test_of_chunk :: "nat \<Rightarrow> nat list \<Rightarrow> nat list \<times> nat list" where
  "train_test_of_chunk n_samples chunk =
     (filter (\<lambda>i. i \<notin> set chunk) [0..<n_samples], filter (\<lambda>i. i \<in> set chunk) [0..<n_samples])"

definition KFold_split ::
  "(nat list \<Rightarrow> nat list) \<Rightarrow> nat \<Rightarrow> 'x list \<Rightarrow> int list \<Rightarrow> error + (nat list \<times> nat list) list" where
  "KFold_split shuffle n_splits X y =
     (if n_splits \<le> 1 then Inl NSplitsTooSmall
      else if length X \<noteq> length y then Inl InconsistentNumbersOfSamples
      else if n_splits > length X then Inl NSplitsGreaterThanNSamples
      else Inr (map (train_test_of_chunk (length X))
                  (iter_test_indices shuffle n_splits (length X))))"

subsection \<open>The metrics\<close>

text \<open>
  Modelled from the spec: \<^verbatim>\<open>f1_score\<close>, \<^verbatim>\<open>classification_report\<close> and the
  classifier's \<^verbatim>\<open>score\<close> are scikit-learn code and are not part of the repository's
  sources.  The spec defines the F1 score as the harmonic mean of precision and recall for
  a given positive label, says that on a degenerate input the metric silently returns a
  well-defined zero (7), defines \<^verbatim>\<open>score\<close> as the fraction of exact label matches (8),
  and the report as per-class precision, recall, F1 and support with macro and weighted
  averages (4.1), the class names mapped onto the labels in index order.  The details
  the spec leaves open follow the library: a ratio with a zero denominator is zero; the
  report's labels are the sorted distinct labels that occur among the true and predicted
  labels, matched with the target names by position; and the checks that raise are arrays
  of different lengths, a target with more than two distinct labels under the binary
  average, a positive label that is absent although two labels are present, and a number
  of target names different from the number of labels.
\<close>

definition unique_labels :: "int list \<Rightarrow> int list \<Rightarrow> int list" where
  "unique_labels y_true y_pred = sort (remdups (y_true @ y_pred))"

definition tp_sum :: "int list \<Rightarrow> int list \<Rightarrow> int \<Rightarrow> nat" where
  "tp_sum y_true y_pred l = length (filter (\<lambda>(t, p). t = l \<and> p = l) (zip y_true y_pred))"

definition pred_sum :: "int list \<Rightarrow> int \<Rightarrow> nat" where
  "pred_sum y_pred l = count_list y_pred l"

definition true_sum :: "int list \<Rightarrow> int \<Rightarrow> nat" where
  "true_sum y_true l = count_list y_true l"

text \<open>A ratio with a zero denominator is reported as zero (with a warning, which is not
  an exception).\<close>

definition prf_divide :: "real \<Rightarrow> real \<Rightarrow> real" where
  "prf_divide numerator denominator = (if denominator = 0 then 0 else numerator / denominator)"

definition precision :: "int list \<Rightarrow> int list \<Rightarrow> int \<Rightarrow> real" where
  "precision y_true y_pred l = prf_divide (real (tp_sum y_true y_pred l)) (real (pred_sum y_pred l))"

definition recall :: "int list \<Rightarrow> int list \<Rightarrow> int \<Rightarrow> real" where
  "recall y_true y_pred l = prf_divide (real (tp_sum y_true y_pred l)) (real (true_sum y_true l))"

definition f_score :: "int list \<Rightarrow> int list \<Rightarrow> int \<Rightarrow> real" where
  "f_score y_true y_pred l =
     (let p = precision y_true y_pred l; r = recall y_true y_pred l
      in prf_divide (2 * p * r) (p + r))"

definition check_set_wise_labels :: "int list \<Rightarrow> int list \<Rightarrow> int \<Rightarrow> error + unit" where
  "check_set_wise_labels y_true y_pred pos_label =
     (if length y_true \<noteq> length y_pred then Inl InconsistentNumbersOfSamples
      else let present_labels = unique_labels y_true y_pred in
        if length present_labels > 2 then Inl TargetIsMulticlass
        else if pos_label \<notin> set present_labels \<and> length present_labels \<ge> 2
          then Inl PosLabelNotValid
        else Inr ())"

definition f1_score :: "int list \<Rightarrow> int list \<Rightarrow> int \<Rightarrow> error + real" where
  "f1_score y_true y_pred pos_label =
     (case check_set_wise_labels y_true y_pred pos_label of
        Inl e \<Rightarrow> Inl e
      | Inr _ \<Rightarrow> Inr (f_score y_true y_pred pos_label))"

definition accuracy_score :: "int list \<Rightarrow> int list \<Rightarrow> error + real" where
  "accuracy_score y_true y_pred =
     (if length y_true \<noteq> length y_pred then Inl InconsistentNumbersOfSamples
      else Inr (real (length (filter (\<lambda>(t, p). t = p) (zip y_true y_pred)))
                  / real (length y_true)))"

record report_row =
  row_name :: string
  row_precision :: real
  row_recall :: real
  row_f1 :: real
  row_support :: nat

record report =
  class_rows :: "report_row list"
  accuracy :: real
  macro_avg :: report_row
  weighted_avg :: report_row

definition class_row :: "int list \<Rightarrow> int list \<Rightarrow> string \<times> int \<Rightarrow> report_row" where
  "class_row y_true y_pred = (\<lambda>(name, l).
     \<lparr>row_name = name, row_precision = precision y_true y_pred l,
      row_recall = recall y_true y_pred l, row_f1 = f_score y_true y_pred l,
      row_support = true_sum y_true l\<rparr>)"

definition average_row :: "string \<Rightarrow> report_row list \<Rightarrow> real list \<Rightarrow> report_row" where
  "average_row name rows weights =
     (let avg = (\<lambda>field. prf_divide (\<Sum>(r, w)\<leftarrow>zip rows weights. field r * w) (sum_list weights))
      in \<lparr>row_name = name, row_precision = avg row_precision, row_recall = avg row_recall,
          row_f1 = avg row_f1, row_support = sum_list (map row_support rows)\<rparr>)"

definition classification_report :: "int list \<Rightarrow> int list \<Rightarrow> string list \<Rightarrow> error + report" where
  "classification_report y_true y_pred target_names =
     (if length y_true \<noteq> length y_pred then Inl InconsistentNumbersOfSamples
      else let labels = unique_labels y_true y_pred in
        if length labels \<noteq> length target_names then Inl TargetNamesMismatch
        else case accuracy_score y_true y_pred of
          Inl e \<Rightarrow> Inl e
        | Inr acc \<Rightarrow>
            let rows = map (class_row y_true y_pred) (zip target_names labels)
            in Inr \<lparr>class_rows = rows, accuracy = acc,
                    macro_avg = average_row ''macro avg'' rows (map (\<lambda>_. 1) rows),
                    weighted_avg = average_row ''weighted avg'' rows
                                     (map (\<lambda>r. real (row_support r)) rows)\<rparr>)"

subsection \<open>The classifier object\<close>

text \<open>
  Modelled from the spec: the classifier's class is library code and is not part of the
  repository's sources; the object is loaded from a file and the notebook only calls its
  methods \<^verbatim>\<open>fit\<close>, \<^verbatim>\<open>predict\<close> and \<^verbatim>\<open>score\<close>.  The spec (3) describes it as an
  opaque capability: \<^verbatim>\<open>fit(features, labels)\<close> mutates the internal state and returns
  nothing, \<^verbatim>\<open>predict(features)\<close> returns a label vector, \<^verbatim>\<open>score(features, labels)\<close>
  a number; one instance is reused and re-fitted in place.  The object is a record of its
  mutable state and of the two methods its class supplies, which are parameters: \<^verbatim>\<open>fit\<close>
  stores the state that the fit method computes from the current state and the training
  data, and \<^verbatim>\<open>score\<close> is the accuracy of \<^verbatim>\<open>predict\<close>.  Both methods are total
  functions here; whether a particular classifier's \<^verbatim>\<open>fit\<close> can raise is not modelled.
\<close>

record ('x, 's) classifier =
  fit_method :: "'s \<Rightarrow> 'x list \<Rightarrow> int list \<Rightarrow> 's"
  predict_method :: "'s \<Rightarrow> 'x list \<Rightarrow> int list"
  state :: 's

definition fit :: "('x, 's) classifier \<Rightarrow> 'x list \<Rightarrow> int list \<Rightarrow> ('x, 's) classifier" where
  "fit clf X y = clf\<lparr>state := fit_method clf (state clf) X y\<rparr>"

definition predict :: "('x, 's) classifier \<Rightarrow> 'x list \<Rightarrow> int list" where
  "predict clf X = predict_method clf (state clf) X"

definition score :: "('x, 's) classifier \<Rightarrow> 'x list \<Rightarrow> int list \<Rightarrow> error + real" where
  "score clf X y = accuracy_score y (predict clf X)"

subsection \<open>Numbers and text\<close>

text \<open>
  Modelled from the spec: Python's \<^verbatim>\<open>round\<close> and number formatting and numpy's
  \<^verbatim>\<open>mean\<close>, \<^verbatim>\<open>median\<close> and \<^verbatim>\<open>std\<close> are not part of the repository's sources.
  The spec has the accuracy rounded to two decimals, the fold scores printed with three
  decimals, and mean, median and population standard deviation printed with two decimals.

  \<^verbatim>\<open>round\<close> and the \<^verbatim>\<open>.3f\<close> and \<^verbatim>\<open>%.2f\<close> conversions act on binary floating-point
  numbers, which are read here as the real numbers they approximate.  Which of two
  neighbouring decimals they produce at, or next to, a decimal tie depends on the binary
  number and is not a function of the real number.  They are therefore parameters of the
  cells: \<open>rnd x n\<close> stands for \<^verbatim>\<open>round(x, n)\<close> and \<open>fmt p x\<close> for the conversion of
  \<open>x\<close> with \<open>p\<close> decimals, so that \<^verbatim>\<open>"{1:.3f}".format(k, x)\<close> is \<open>fmt 3 x\<close> and
  \<^verbatim>\<open>'%.2f' % x\<close> is \<open>fmt 2 x\<close>.  Rounding to the given number of decimals is the
  condition \<open>nearest_rounder\<close>, respectively \<open>nearest_formatter\<close>, on such a
  parameter: the value produced is a whole number of units within half a unit of the
  number, with no tie rule fixed.  The conversion of the fold number, an integer, is
  \<open>str_nat\<close>.

  numpy's \<^verbatim>\<open>std\<close> (with its default of zero delta degrees of freedom) is the root of
  the mean squared deviation.  The statistics of an empty array are not-a-number in numpy
  and are not modelled: every array below has five entries.
\<close>

type_synonym rounder = "real \<Rightarrow> nat \<Rightarrow> real"

type_synonym formatter = "nat \<Rightarrow> real \<Rightarrow> string"

definition digit_char :: "nat \<Rightarrow> char" where
  "digit_char d = char_of (48 + d)"

fun str_nat :: "nat \<Rightarrow> string" where
  "str_nat n = (if n < 10 then [digit_char n] else str_nat (n div 10) @ [digit_char (n mod 10)])"

declare str_nat.simps [simp del]

definition zero_pad :: "nat \<Rightarrow> string \<Rightarrow> string" where
  "zero_pad width s = replicate (width - length s) (CHR ''0'') @ s"

definition fixed_point_text :: "nat \<Rightarrow> bool \<Rightarrow> nat \<Rightarrow> string" where
  "fixed_point_text prec negative m =
     (if negative then ''-'' else '''') @ str_nat (m div 10 ^ prec)
       @ (if prec = 0 then '''' else ''.'' @ zero_pad prec (str_nat (m mod 10 ^ prec)))"

definition nearest_rounder :: "rounder \<Rightarrow> bool" where
  "nearest_rounder rnd \<longleftrightarrow>
     (\<forall>x n. (\<exists>m::int. rnd x n = of_int m / 10 ^ n) \<and> \<bar>rnd x n - x\<bar> \<le> 1 / (2 * 10 ^ n))"

definition nearest_formatter :: "formatter \<Rightarrow> bool" where
  "nearest_formatter fmt \<longleftrightarrow>
     (\<forall>prec x. \<exists>m::nat. \<bar>real m - \<bar>x\<bar> * 10 ^ prec\<bar> \<le> 1 / 2
                   \<and> fmt prec x = fixed_point_text prec (x < 0) m)"

definition mean :: "real list \<Rightarrow> real" where
  "mean xs = sum_list xs / real (length xs)"

definition median :: "real list \<Rightarrow> real" where
  "median xs =
     (let s = sort xs; n = length xs
      in if even n then (s ! (n div 2 - 1) + s ! (n div 2)) / 2 else s ! (n div 2))"

definition std :: "real list \<Rightarrow> real" where
  "std xs = sqrt (mean (map (\<lambda>x. (x - mean xs)\<^sup>2) xs))"

subsection \<open>The cross-validation cells\<close>

text \<open>
  The magnetism cell:
  \<^verbatim>\<open>
  fm_scores = []
  afm_scores = []
  kf = KFold(n_splits=5, shuffle=True)
  kf.get_n_splits(X_train, y_train)
  for k, (train, test) in enumerate(kf.split(X_train, y_train)):
      clf.fit(X_train[train], y_train[train])
      f1s_fm = f1_score(y_train[test], clf.predict(X_train[test]), pos_label=1)
      f1s_afm = f1_score(y_train[test], clf.predict(X_train[test]), pos_label=0)
      fm_scores.append(f1s_fm)
      afm_scores.append(f1s_afm)
      print("[fold {0}] FM score: {1:.3f}".format(k, f1s_fm))
      print("[fold {0}] AFM score: {1:.3f}".format(k, f1s_afm))
  fm_scores = np.array(fm_scores)
  afm_scores = np.array(afm_scores)
  print('FM Mean: %.2f median: %.2f stdev: %.2f'
        % (np.mean(fm_scores), np.median(fm_scores), np.std(fm_scores)))
  print('AFM Mean: %.2f median: %.2f stdev: %.2f'
        % (np.mean(afm_scores), np.median(afm_scores), np.std(afm_scores)))
  \<close>
  The topology cell is the same text with \<^verbatim>\<open>topo\<close> and \<^verbatim>\<open>triv\<close> for \<^verbatim>\<open>fm\<close> and
  \<^verbatim>\<open>afm\<close> and the class names Topological and Trivial.  The loop's state is the tuple
  of the two score lists, the classifier object and the lines printed so far; the loop
  variable ranges over the enumerated folds.  \<^verbatim>\<open>get_n_splits\<close> returns the number of
  folds and has no effect.  An exception raised by the splitter or a metric ends the cell.
  The first argument \<open>fmt\<close> is Python's conversion of a floating-point number to text
  with a given number of decimals (see above).
\<close>

type_synonym ('x, 's) cv_state = "real list \<times> real list \<times> ('x, 's) classifier \<times> string list"

fun magnetism_loop ::
  "formatter \<Rightarrow> 'x list \<Rightarrow> int list \<Rightarrow> (nat \<times> nat list \<times> nat list) list \<Rightarrow> ('x, 's) cv_state
     \<Rightarrow> error + ('x, 's) cv_state" where
  "magnetism_loop fmt X_train y_train [] (fm_scores, afm_scores, clf, out) =
     Inr (fm_scores, afm_scores, clf, out)"
| "magnetism_loop fmt X_train y_train ((k, train, test) # rest) (fm_scores, afm_scores, clf, out) =
     (let clf = fit clf (take_rows X_train train) (take_rows y_train train) in
      case f1_score (take_rows y_train test) (predict clf (take_rows X_train test)) 1 of
        Inl e \<Rightarrow> Inl e
      | Inr f1s_fm \<Rightarrow>
         (case f1_score (take_rows y_train test) (predict clf (take_rows X_train test)) 0 of
            Inl e \<Rightarrow> Inl e
          | Inr f1s_afm \<Rightarrow>
              magnetism_loop fmt X_train y_train rest
                (fm_scores @ [f1s_fm], afm_scores @ [f1s_afm], clf,
                 out @ [''[fold '' @ str_nat k @ ''] FM score: '' @ fmt 3 f1s_fm,
                        ''[fold '' @ str_nat k @ ''] AFM score: '' @ fmt 3 f1s_afm])))"

definition magnetism_cv_cell ::
  "formatter \<Rightarrow> (nat list \<Rightarrow> nat list) \<Rightarrow> 'x list \<Rightarrow> int list \<Rightarrow> ('x, 's) classifier
     \<Rightarrow> error + ('x, 's) cv_state" where
  "magnetism_cv_cell fmt shuffle X_train y_train clf =
     (case KFold_split shuffle 5 X_train y_train of
        Inl e \<Rightarrow> Inl e
      | Inr folds \<Rightarrow>
         (case magnetism_loop fmt X_train y_train (enumerate 0 folds) ([], [], clf, []) of
            Inl e \<Rightarrow> Inl e
          | Inr (fm_scores, afm_scores, clf, out) \<Rightarrow>
              Inr (fm_scores, afm_scores, clf,
                   out @ [''FM Mean: '' @ fmt 2 (mean fm_scores)
                            @ '' median: '' @ fmt 2 (median fm_scores)
                            @ '' stdev: '' @ fmt 2 (std fm_scores),
                          ''AFM Mean: '' @ fmt 2 (mean afm_scores)
                            @ '' median: '' @ fmt 2 (median afm_scores)
                            @ '' stdev: '' @ fmt 2 (std afm_scores)])))"

fun topology_loop ::
  "formatter \<Rightarrow> 'x list \<Rightarrow> int list \<Rightarrow> (nat \<times> nat list \<times> nat list) list \<Rightarrow> ('x, 's) cv_state
     \<Rightarrow> error + ('x, 's) cv_state" where
  "topology_loop fmt X_train y_train [] (topo_scores, triv_scores, clf, out) =
     Inr (topo_scores, triv_scores, clf, out)"
| "topology_loop fmt X_train y_train ((k, train, test) # rest) (topo_scores, triv_scores, clf, out) =
     (let clf = fit clf (take_rows X_train train) (take_rows y_train train) in
      case f1_score (take_rows y_train test) (predict clf (take_rows X_train test)) 1 of
        Inl e \<Rightarrow> Inl e
      | Inr f1s_topo \<Rightarrow>
         (case f1_score (take_rows y_train test) (predict clf (take_rows X_train test)) 0 of
            Inl e \<Rightarrow> Inl e
          | Inr f1s_triv \<Rightarrow>
              topology_loop fmt X_train y_train rest
                (topo_scores @ [f1s_topo], triv_scores @ [f1s_triv], clf,
                 out @ [''[fold '' @ str_nat k @ ''] Topological score: '' @ fmt 3 f1s_topo,
                        ''[fold '' @ str_nat k @ ''] Trivial score: '' @ fmt 3 f1s_triv])))"

definition topology_cv_cell ::
  "formatter \<Rightarrow> (nat list \<Rightarrow> nat list) \<Rightarrow> 'x list \<Rightarrow> int list \<Rightarrow> ('x, 's) classifier
     \<Rightarrow> error + ('x, 's) cv_state" where
  "topology_cv_cell fmt shuffle X_train y_train clf =
     (case KFold_split shuffle 5 X_train y_train of
        Inl e \<Rightarrow> Inl e
      | Inr folds \<Rightarrow>
         (case topology_loop fmt X_train y_train (enumerate 0 folds) ([], [], clf, []) of
            Inl e \<Rightarrow> Inl e
          | Inr (topo_scores, triv_scores, clf, out) \<Rightarrow>
              Inr (topo_scores, triv_scores, clf,
                   out @ [''Topological Mean: '' @ fmt 2 (mean topo_scores)
                            @ '' median: '' @ fmt 2 (median topo_scores)
                            @ '' stdev: '' @ fmt 2 (std topo_scores),
                          ''Trivial Mean: '' @ fmt 2 (mean triv_scores)
                            @ '' median: '' @ fmt 2 (median triv_scores)
                            @ '' stdev: '' @ fmt 2 (std triv_scores)])))"

subsection \<open>The held-out cells\<close>

text \<open>
  The two cells that follow each cross-validation cell (and the loading of the held-out
  data):
  \<^verbatim>\<open>
  round(clf.score(X_test, y_test), 2)
  print(classification_report(y_test, clf.predict(X_test), target_names=["AFM", "FM"]))
  \<close>
  with the target names Trivial and Topological in the topology part.  The report is kept
  as its rows of numbers rather than as the formatted table.  On an empty held-out set the
  accuracy is not-a-number in the library; that case is not modelled.  The argument
  \<open>rnd\<close> is Python's \<^verbatim>\<open>round\<close> (see above).
\<close>

definition accuracy_cell :: "rounder \<Rightarrow> ('x, 's) classifier \<Rightarrow> 'x list \<Rightarrow> int list \<Rightarrow> error + real" where
  "accuracy_cell rnd clf X_test y_test =
     (case score clf X_test y_test of Inl e \<Rightarrow> Inl e | Inr a \<Rightarrow> Inr (rnd a 2))"

definition magnetism_report_cell ::
  "('x, 's) classifier \<Rightarrow> 'x list \<Rightarrow> int list \<Rightarrow> error + report" where
  "magnetism_report_cell clf X_test y_test =
     classification_report y_test (predict clf X_test) [''AFM'', ''FM'']"

definition topology_report_cell ::
  "('x, 's) classifier \<Rightarrow> 'x list \<Rightarrow> int list \<Rightarrow> error + report" where
  "topology_report_cell clf X_test y_test =
     classification_report y_test (predict clf X_test) [''Trivial'', ''Topological'']"

text \<open>The cells of one task in the notebook's order: the cross-validation cell, then the
  held-out accuracy and report cells, which read the classifier object that the loop left
  behind.\<close>

definition magnetism_section ::
  "formatter \<Rightarrow> rounder \<Rightarrow> (nat list \<Rightarrow> nat list) \<Rightarrow> 'x list \<Rightarrow> int list \<Rightarrow> ('x, 's) classifier \<Rightarrow> 'x list \<Rightarrow> int list
     \<Rightarrow> error + (('x, 's) cv_state \<times> real \<times> report)" where
  "magnetism_section fmt rnd shuffle X_train y_train clf X_test y_test =
     (case magnetism_cv_cell fmt shuffle X_train y_train clf of
        Inl e \<Rightarrow> Inl e
      | Inr (fm_scores, afm_scores, clf, out) \<Rightarrow>
         (case accuracy_cell rnd clf X_test y_test of
            Inl e \<Rightarrow> Inl e
          | Inr acc \<Rightarrow>
             (case magnetism_report_cell clf X_test y_test of
                Inl e \<Rightarrow> Inl e
              | Inr rep \<Rightarrow> Inr ((fm_scores, afm_scores, clf, out), acc, rep))))"

definition topology_section ::
  "formatter \<Rightarrow> rounder \<Rightarrow> (nat list \<Rightarrow> nat list) \<Rightarrow> 'x list \<Rightarrow> int list \<Rightarrow> ('x, 's) classifier \<Rightarrow> 'x list \<Rightarrow> int list
     \<Rightarrow> error + (('x, 's) cv_state \<times> real \<times> report)" where
  "topology_section fmt rnd shuffle X_train y_train clf X_test y_test =
     (case topology_cv_cell fmt shuffle X_train y_train clf of
        Inl e \<Rightarrow> Inl e
      | Inr (topo_scores, triv_scores, clf, out) \<Rightarrow>
         (case accuracy_cell rnd clf X_test y_test of
            Inl e \<Rightarrow> Inl e
          | Inr acc \<Rightarrow>
             (case topology_report_cell clf X_test y_test of
                Inl e \<Rightarrow> Inl e
              | Inr rep \<Rightarrow> Inr ((topo_scores, triv_scores, clf, out), acc, rep))))"

subsection \<open>The spec's two operations\<close>

text \<open>
  The spec describes the cells as two operations with parameters.  \<open>cross_validate\<close>
  follows its words (4.1): the fold count, the positive and the negative label and the
  two printed class names are arguments; the cells are its instances at five folds, labels
  1 and 0 and their own class names (lemmas \<open>magnetism_cv_cell_eq\<close> and
  \<open>topology_cv_cell_eq\<close>).  \<open>evaluate_holdout\<close> is the accuracy cell followed by the
  report cell with the class names as an argument.
\<close>

fun cross_validate_loop ::
  "formatter \<Rightarrow> string \<Rightarrow> string \<Rightarrow> int \<Rightarrow> int \<Rightarrow> 'x list \<Rightarrow> int list \<Rightarrow> (nat \<times> nat list \<times> nat list) list
     \<Rightarrow> ('x, 's) cv_state \<Rightarrow> error + ('x, 's) cv_state" where
  "cross_validate_loop fmt pos_name neg_name positive_label negative_label features labels []
       (pos_scores, neg_scores, classifier, out) =
     Inr (pos_scores, neg_scores, classifier, out)"
| "cross_validate_loop fmt pos_name neg_name positive_label negative_label features labels
       ((i, train, test) # rest) (pos_scores, neg_scores, classifier, out) =
     (let classifier = fit classifier (take_rows features train) (take_rows labels train);
          predicted = predict classifier (take_rows features test) in
      case f1_score (take_rows labels test) predicted positive_label of
        Inl e \<Rightarrow> Inl e
      | Inr f1_pos \<Rightarrow>
         (case f1_score (take_rows labels test) predicted negative_label of
            Inl e \<Rightarrow> Inl e
          | Inr f1_neg \<Rightarrow>
              cross_validate_loop fmt pos_name neg_name positive_label negative_label features labels rest
                (pos_scores @ [f1_pos], neg_scores @ [f1_neg], classifier,
                 out @ [''[fold '' @ str_nat i @ ''] '' @ pos_name @ '' score: '' @ fmt 3 f1_pos,
                        ''[fold '' @ str_nat i @ ''] '' @ neg_name @ '' score: '' @ fmt 3 f1_neg])))"

definition summary_line :: "formatter \<Rightarrow> string \<Rightarrow> real list \<Rightarrow> string" where
  "summary_line fmt class_name scores =
     class_name @ '' Mean: '' @ fmt 2 (mean scores)
       @ '' median: '' @ fmt 2 (median scores)
       @ '' stdev: '' @ fmt 2 (std scores)"

definition cross_validate ::
  "formatter \<Rightarrow> (nat list \<Rightarrow> nat list) \<Rightarrow> string \<Rightarrow> string \<Rightarrow> 'x list \<Rightarrow> int list \<Rightarrow> ('x, 's) classifier
     \<Rightarrow> nat \<Rightarrow> int \<Rightarrow> int \<Rightarrow> error + ('x, 's) cv_state" where
  "cross_validate fmt shuffle pos_name neg_name features labels classifier k positive_label negative_label =
     (case KFold_split shuffle k features labels of
        Inl e \<Rightarrow> Inl e
      | Inr folds \<Rightarrow>
         (case cross_validate_loop fmt pos_name neg_name positive_label negative_label features labels
                 (enumerate 0 folds) ([], [], classifier, []) of
            Inl e \<Rightarrow> Inl e
          | Inr (pos_scores, neg_scores, classifier, out) \<Rightarrow>
              Inr (pos_scores, neg_scores, classifier,
                   out @ [summary_line fmt pos_name pos_scores, summary_line fmt neg_name neg_scores])))"

definition evaluate_holdout ::
  "rounder \<Rightarrow> 'x list \<Rightarrow> int list \<Rightarrow> ('x, 's) classifier \<Rightarrow> string list \<Rightarrow> error + (real \<times> report)" where
  "evaluate_holdout rnd features labels classifier class_names =
     (case accuracy_cell rnd classifier features labels of
        Inl e \<Rightarrow> Inl e
      | Inr acc \<Rightarrow>
         (case classification_report labels (predict classifier features) class_names of
            Inl e \<Rightarrow> Inl e
          | Inr rep \<Rightarrow> Inr (acc, rep)))"

subsection \<open>Notions used to state the properties\<close>

text \<open>The classifier object after the \<^verbatim>\<open>fit\<close> calls of a list of folds, in order.\<close>

definition fit_folds ::
  "'x list \<Rightarrow> int list \<Rightarrow> (nat list \<times> nat list) list \<Rightarrow> ('x, 's) classifier \<Rightarrow> ('x, 's) classifier" where
  "fit_folds X y folds clf =
     foldl (\<lambda>c (train, test). fit c (take_rows X train) (take_rows y train)) clf folds"

text \<open>The lines a cross-validation cell prints, given the class names and the two score
  lists: two lines per fold, then one summary line per class.\<close>

definition fold_lines :: "formatter \<Rightarrow> string \<Rightarrow> string \<Rightarrow> nat \<Rightarrow> real \<Rightarrow> real \<Rightarrow> string list" where
  "fold_lines fmt pos_name neg_name i f1_pos f1_neg =
     [''[fold '' @ str_nat i @ ''] '' @ pos_name @ '' score: '' @ fmt 3 f1_pos,
      ''[fold '' @ str_nat i @ ''] '' @ neg_name @ '' score: '' @ fmt 3 f1_neg]"

definition report_lines :: "formatter \<Rightarrow> string \<Rightarrow> string \<Rightarrow> real list \<Rightarrow> real list \<Rightarrow> string list" where
  "report_lines fmt pos_name neg_name pos_scores neg_scores =
     concat (map (\<lambda>i. fold_lines fmt pos_name neg_name i (pos_scores ! i) (neg_scores ! i))
               [0..<length pos_scores])
     @ [summary_line fmt pos_name pos_scores, summary_line fmt neg_name neg_scores]"

definition without_output :: "error + ('x, 's) cv_state \<Rightarrow> error + (real list \<times> real list \<times> ('x, 's) classifier)" where
  "without_output r = map_sum id (\<lambda>(pos_scores, neg_scores, clf, out). (pos_scores, neg_scores, clf)) r"

subsection \<open>A small run\<close>

text \<open>
  Test data for the concrete instances below: ten samples with one integer feature, a
  classifier that learns the smallest feature value among the positive training samples
  and predicts 1 from that value on, and the reversal of the index array as the shuffle.
\<close>

definition threshold_fit :: "int \<Rightarrow> int list \<Rightarrow> int list \<Rightarrow> int" where
  "threshold_fit s X y = foldr min (map fst (filter (\<lambda>(x, l). l = 1) (zip X y))) 1000"

definition threshold_predict :: "int \<Rightarrow> int list \<Rightarrow> int list" where
  "threshold_predict s X = map (\<lambda>x. if s \<le> x then 1 else 0) X"

definition threshold_clf :: "(int, int) classifier" where
  "threshold_clf = \<lparr>fit_method = threshold_fit, predict_method = threshold_predict, state = 0\<rparr>"

definition X_example :: "int list" where
  "X_example = [1, 2, 3, 4, 5, 6, 7, 8, 9, 10]"

definition y_example :: "int list" where
  "y_example = [0, 0, 1, 0, 0, 1, 1, 0, 1, 1]"

definition folds_example :: "(nat list \<times> nat list) list" where
  "folds_example =
     [([0, 1, 2, 3, 4, 5, 6, 7], [8, 9]), ([0, 1, 2, 3, 4, 5, 8, 9], [6, 7]),
      ([0, 1, 2, 3, 6, 7, 8, 9], [4, 5]), ([0, 1, 4, 5, 6, 7, 8, 9], [2, 3]),
      ([2, 3, 4, 5, 6, 7, 8, 9], [0, 1])]"

definition X_test_example :: "int list" where
  "X_test_example = [1, 3, 5, 7]"

definition y_test_example :: "int list" where
  "y_test_example = [0, 1, 0, 1]"

text \<open>
  A rounder and a formatter for the concrete instances: they round the real number itself,
  a tie going to the even neighbour.  None of the numbers of the small run is at a decimal
  tie.  A second, three-sample held-out set has an accuracy that needs rounding.
\<close>

definition round_half_even :: "real \<Rightarrow> int" where
  "round_half_even x =
     (let f = \<lfloor>x\<rfloor>; d = x - of_int f
      in if d < 1 / 2 then f else if 1 / 2 < d then f + 1 else if even f then f else f + 1)"

definition exact_round :: rounder where
  "exact_round x ndigits = of_int (round_half_even (x * 10 ^ ndigits)) / 10 ^ ndigits"

definition exact_format :: formatter where
  "exact_format prec x = fixed_point_text prec (x < 0) (nat (round_half_even (\<bar>x\<bar> * 10 ^ prec)))"

definition X_test_small :: "int list" where
  "X_test_small = [1, 3, 5]"

definition y_test_small :: "int list" where
  "y_test_small = [0, 1, 0]"

definition magnetism_output_example :: "string list" where
  "magnetism_output_example =
     [''[fold 0] FM score: 1.000'', ''[fold 0] AFM score: 0.000'',
      ''[fold 1] FM score: 0.667'', ''[fold 1] AFM score: 0.000'',
      ''[fold 2] FM score: 0.667'', ''[fold 2] AFM score: 0.000'',
      ''[fold 3] FM score: 0.000'', ''[fold 3] AFM score: 0.667'',
      ''[fold 4] FM score: 0.000'', ''[fold 4] AFM score: 1.000'',
      ''FM Mean: 0.47 median: 0.67 stdev: 0.40'',
      ''AFM Mean: 0.33 median: 0.00 stdev: 0.42'']"

definition topology_output_example :: "string list" where
  "topology_output_example =
     [''[fold 0] Topological score: 1.000'', ''[fold 0] Trivial score: 0.000'',
      ''[fold 1] Topological score: 0.667'', ''[fold 1] Trivial score: 0.000'',
      ''[fold 2] Topological score: 0.667'', ''[fold 2] Trivial score: 0.000'',
      ''[fold 3] Topological score: 0.000'', ''[fold 3] Trivial score: 0.667'',
      ''[fold 4] Topological score: 0.000'', ''[fold 4] Trivial score: 1.000'',
      ''Topological Mean: 0.47 median: 0.67 stdev: 0.40'',
      ''Trivial Mean: 0.33 median: 0.00 stdev: 0.42'']"

definition magnetism_report_example :: report where
  "magnetism_report_example =
     \<lparr>class_rows =
        [\<lparr>row_name = ''AFM'', row_precision = 1, row_recall = 1 / 2, row_f1 = 2 / 3, row_support = 2\<rparr>,
         \<lparr>row_name = ''FM'', row_precision = 2 / 3, row_recall = 1, row_f1 = 4 / 5, row_support = 2\<rparr>],
      accuracy = 3 / 4,
      macro_avg = \<lparr>row_name = ''macro avg'', row_precision = 5 / 6, row_recall = 3 / 4,
                    row_f1 = 11 / 15, row_support = 4\<rparr>,
      weighted_avg = \<lparr>row_name = ''weighted avg'', row_precision = 5 / 6, row_recall = 3 / 4,
                       row_f1 = 11 / 15, row_support = 4\<rparr>\<rparr>"

definition topology_report_example :: report where
  "topology_report_example =
     \<lparr>class_rows =
        [\<lparr>row_name = ''Trivial'', row_precision = 1, row_recall = 1 / 2, row_f1 = 2 / 3, row_support = 2\<rparr>,
         \<lparr>row_name = ''Topological'', row_precision = 2 / 3, row_recall = 1, row_f1 = 4 / 5, row_support = 2\<rparr>],
      accuracy = 3 / 4,
      macro_avg = \<lparr>row_name = ''macro avg'', row_precision = 5 / 6, row_recall = 3 / 4,
                    row_f1 = 11 / 15, row_support = 4\<rparr>,
      weighted_avg = \<lparr>row_name = ''weighted avg'', row_precision = 5 / 6, row_recall = 3 / 4,
                       row_f1 = 11 / 15, row_support = 4\<rparr>\<rparr>"

section \<open>Properties\<close>

subsection \<open>The fold splitter\<close>

lemma length_fold_sizes [simp]: "length (fold_sizes k n) = k"
  by (simp add: fold_sizes_def)

lemma sum_list_indicator_upt:
  "(\<Sum>i\<leftarrow>[0..<k]. if i < m then 1 else (0::nat)) = min m k"
  by (induction k) auto

lemma sum_list_fold_sizes:
  assumes "0 < k"
  shows "sum_list (fold_sizes k n) = n"
proof -
  have "sum_list (fold_sizes k n)
      = (\<Sum>i\<leftarrow>[0..<k]. n div k) + (\<Sum>i\<leftarrow>[0..<k]. if i < n mod k then 1 else (0::nat))"
    by (simp add: fold_sizes_def sum_list_addf)
  also have "\<dots> = k * (n div k) + min (n mod k) k"
    by (simp add: sum_list_indicator_upt sum_list_triv)
  also have "\<dots> = n"
    using assms by (simp add: min_def less_imp_le)
  finally show ?thesis .
qed

lemma length_test_chunks [simp]: "length (test_chunks indices c szs) = length szs"
  by (induction szs arbitrary: c) auto

lemma concat_test_chunks:
  "concat (test_chunks indices c szs) = take (sum_list szs) (drop c indices)"
proof (induction szs arbitrary: c)
  case Nil
  then show ?case by simp
next
  case (Cons s szs)
  have "take s (drop c indices) @ take (sum_list szs) (drop (c + s) indices)
      = take (s + sum_list szs) (drop c indices)"
    by (simp add: take_add add.commute)
  with Cons show ?case by simp
qed

lemma disjoint_of_distinct_concat:
  "distinct (concat xss) \<Longrightarrow> i < j \<Longrightarrow> j < length xss \<Longrightarrow> set (xss ! i) \<inter> set (xss ! j) = {}"
proof (induction xss arbitrary: i j)
  case Nil
  then show ?case by simp
next
  case (Cons xs xss)
  show ?case
  proof (cases i)
    case 0
    with Cons.prems obtain j' where j': "j = Suc j'" "j' < length xss"
      by (cases j) auto
    then have "set (xss ! j') \<subseteq> \<Union> (set ` set xss)"
      by (metis UN_upper nth_mem)
    with Cons.prems(1) 0 j' show ?thesis by auto
  next
    case (Suc i')
    with Cons.prems obtain j' where "j = Suc j'" "i' < j'" "j' < length xss"
      by (cases j) auto
    with Cons.IH [of i' j'] Cons.prems(1) Suc show ?thesis by simp
  qed
qed

lemma iter_test_indices_concat:
  assumes "0 < k" "length (shuffle [0..<n]) = n"
  shows "concat (iter_test_indices shuffle k n) = shuffle [0..<n]"
  using assms by (simp add: iter_test_indices_def concat_test_chunks sum_list_fold_sizes)

lemma length_iter_test_indices [simp]: "length (iter_test_indices shuffle k n) = k"
  by (simp add: iter_test_indices_def)

lemma nth_test_chunks:
  "j < length szs \<Longrightarrow>
     test_chunks indices c szs ! j = take (szs ! j) (drop (c + sum_list (take j szs)) indices)"
proof (induction szs arbitrary: c j)
  case Nil
  then show ?case by simp
next
  case (Cons s szs)
  then show ?case by (cases j) (simp_all add: add.assoc)
qed

lemma set_train_test_of_chunk:
  "set (snd (train_test_of_chunk n chunk)) = set chunk \<inter> {0..<n}"
  "set (fst (train_test_of_chunk n chunk)) = {0..<n} - set chunk"
  by (auto simp: train_test_of_chunk_def)

lemma KFold_split_Inr:
  assumes "length X = length y" "2 \<le> k" "k \<le> length X"
  shows "KFold_split shuffle k X y
       = Inr (map (train_test_of_chunk (length X)) (iter_test_indices shuffle k (length X)))"
  using assms by (simp add: KFold_split_def)

lemma shuffle_facts:
  assumes "mset p = mset [0..<n]"
  shows "length p = n" "distinct p" "set p = {0..<n}"
proof -
  show "length p = n"
    using assms by (metis length_upt diff_zero size_mset)
  show "distinct p"
    using assms by (metis distinct_upt mset_eq_imp_distinct_iff)
  show "set p = {0..<n}"
    using assms by (metis set_mset_mset set_upt)
qed

lemma test_sets_partition:
  assumes sh: "mset (shuffle [0..<n]) = mset [0..<n]" and k: "0 < k"
  defines "chunks \<equiv> iter_test_indices shuffle k n"
  shows "\<Union> (set ` set chunks) = {0..<n}"
    and "\<And>i j. i < k \<Longrightarrow> j < k \<Longrightarrow> i \<noteq> j \<Longrightarrow> set (chunks ! i) \<inter> set (chunks ! j) = {}"
proof -
  have c: "concat chunks = shuffle [0..<n]"
    unfolding chunks_def using k shuffle_facts(1) [OF sh] by (rule iter_test_indices_concat)
  have "set (concat chunks) = {0..<n}"
    using c shuffle_facts(3) [OF sh] by simp
  then show "\<Union> (set ` set chunks) = {0..<n}" by simp
  have d: "distinct (concat chunks)"
    using c shuffle_facts(2) [OF sh] by simp
  have len: "length chunks = k" by (simp add: chunks_def)
  fix i j assume ij: "i < k" "j < k" "i \<noteq> j"
  show "set (chunks ! i) \<inter> set (chunks ! j) = {}"
  proof (cases "i < j")
    case True
    then show ?thesis using disjoint_of_distinct_concat [OF d, of i j] ij len by simp
  next
    case False
    then have "j < i" using ij by simp
    then show ?thesis using disjoint_of_distinct_concat [OF d, of j i] ij len by auto
  qed
qed

lemma nth_iter_test_indices:
  "j < k \<Longrightarrow> iter_test_indices shuffle k n ! j
     = take (fold_sizes k n ! j) (drop (sum_list (take j (fold_sizes k n))) (shuffle [0..<n]))"
  by (simp add: iter_test_indices_def nth_test_chunks)

lemma nth_fold_sizes:
  "j < k \<Longrightarrow> fold_sizes k n ! j = n div k + (if j < n mod k then 1 else 0)"
  by (simp add: fold_sizes_def)

lemma sum_list_take_le: "sum_list (take j (xs::nat list)) + xs ! j \<le> sum_list xs" if "j < length xs"
proof -
  have "xs = take j xs @ xs ! j # drop (Suc j) xs"
    using that by (simp add: id_take_nth_drop)
  then have "sum_list xs = sum_list (take j xs) + xs ! j + sum_list (drop (Suc j) xs)"
    by (metis sum_list.Cons sum_list_append add.assoc)
  then show ?thesis by simp
qed

lemma length_nth_iter_test_indices:
  assumes "length (shuffle [0..<n]) = n" "j < k"
  shows "length (iter_test_indices shuffle k n ! j) = fold_sizes k n ! j"
proof -
  have "sum_list (take j (fold_sizes k n)) + fold_sizes k n ! j \<le> n"
    using sum_list_take_le [of j "fold_sizes k n"] assms(2) sum_list_fold_sizes [of k n] by simp
  then show ?thesis
    using assms by (simp add: nth_iter_test_indices)
qed

lemma length_test_of_chunk:
  assumes "distinct chunk" "set chunk \<subseteq> {0..<n}"
  shows "length (snd (train_test_of_chunk n chunk)) = length chunk"
proof -
  have "length (snd (train_test_of_chunk n chunk)) = card ({i. i \<in> set chunk} \<inter> set [0..<n])"
    by (simp add: train_test_of_chunk_def distinct_length_filter)
  also have "{i. i \<in> set chunk} \<inter> set [0..<n] = set chunk"
    using assms(2) by auto
  finally show ?thesis using assms(1) by (simp add: distinct_card)
qed

lemma chunk_facts:
  assumes sh: "mset (shuffle [0..<n]) = mset [0..<n]" and j: "j < k"
  shows "distinct (iter_test_indices shuffle k n ! j)"
    and "set (iter_test_indices shuffle k n ! j) \<subseteq> {0..<n}"
proof -
  have eq: "iter_test_indices shuffle k n ! j
     = take (fold_sizes k n ! j) (drop (sum_list (take j (fold_sizes k n))) (shuffle [0..<n]))"
    using j by (rule nth_iter_test_indices)
  show "distinct (iter_test_indices shuffle k n ! j)"
    unfolding eq using shuffle_facts(2) [OF sh] by simp
  have "set (iter_test_indices shuffle k n ! j) \<subseteq> set (shuffle [0..<n])"
    unfolding eq by (meson set_take_subset set_drop_subset subset_trans)
  then show "set (iter_test_indices shuffle k n ! j) \<subseteq> {0..<n}"
    using shuffle_facts(3) [OF sh] by simp
qed

lemma test_set_eq_chunk:
  assumes sh: "mset (shuffle [0..<n]) = mset [0..<n]" and j: "j < k"
  shows "set (snd (train_test_of_chunk n (iter_test_indices shuffle k n ! j)))
       = set (iter_test_indices shuffle k n ! j)"
  using chunk_facts(2) [where shuffle = shuffle, OF sh j] by (auto simp: set_train_test_of_chunk)

lemma KFold_split_example:
  "KFold_split rev 5 [10, 11, 12, 13, 14, 15, 16::nat] [0, 1, 1, 0, 1, 0, 0]
     = Inr [([0, 1, 2, 3, 4], [5, 6]), ([0, 1, 2, 5, 6], [3, 4]), ([0, 1, 3, 4, 5, 6], [2]),
            ([0, 2, 3, 4, 5, 6], [1]), ([1, 2, 3, 4, 5, 6], [0])]"
  by (simp add: KFold_split_def iter_test_indices_def fold_sizes_def train_test_of_chunk_def upt_rec)

text \<open>
  Claim C3, as the splitter has it.  Whenever the shuffle permutes the index array, the
  feature and label arrays have the same length and there are at least as many samples as
  folds (and at least two folds), the split returns one train/test pair per fold; every
  sample index lies in the test set of exactly one fold, so the test sets are pairwise
  disjoint and cover all indices; each train set is the complement of its test set; each
  test set is a contiguous slice of the shuffled index array; the first \<open>n mod k\<close> folds
  have \<open>n div k + 1\<close> test indices and the others \<open>n div k\<close>; and the split does not
  depend on the labels, so it is not stratified by class.
\<close>

theorem KFold_split_partition:
  assumes sh: "mset (shuffle [0..<length X]) = mset [0..<length X]"
    and len: "length X = length y" and k2: "2 \<le> k" and kn: "k \<le> length X"
  shows "\<exists>folds. KFold_split shuffle k X y = Inr folds \<and> length folds = k
     \<and> (\<forall>i<length X. \<exists>!j. j < k \<and> i \<in> set (snd (folds ! j)))
     \<and> (\<forall>j<k. set (snd (folds ! j)) \<subseteq> {0..<length X}
            \<and> set (fst (folds ! j)) = {0..<length X} - set (snd (folds ! j))
            \<and> set (snd (folds ! j))
                = set (take (fold_sizes k (length X) ! j)
                        (drop (sum_list (take j (fold_sizes k (length X)))) (shuffle [0..<length X])))
            \<and> length (snd (folds ! j)) = length X div k + (if j < length X mod k then 1 else 0))
     \<and> (\<forall>y'. length y' = length y \<longrightarrow> KFold_split shuffle k X y' = KFold_split shuffle k X y)"
proof -
  define n where "n = length X"
  define chunks where "chunks = iter_test_indices shuffle k n"
  define folds where "folds = map (train_test_of_chunk n) chunks"
  have sh': "mset (shuffle [0..<n]) = mset [0..<n]" using sh by (simp add: n_def)
  have k0: "0 < k" using k2 by simp
  have split: "KFold_split shuffle k X y = Inr folds"
    using KFold_split_Inr [OF len k2 kn] by (simp add: folds_def chunks_def n_def)
  have lenf: "length folds = k" by (simp add: folds_def chunks_def)
  have test: "set (snd (folds ! j)) = set (chunks ! j)" if "j < k" for j
    using test_set_eq_chunk [where shuffle = shuffle, OF sh' that] that by (simp add: folds_def chunks_def)
  have train: "set (fst (folds ! j)) = {0..<n} - set (snd (folds ! j))" if "j < k" for j
    using that test [OF that] by (simp add: folds_def chunks_def set_train_test_of_chunk)
  have cover: "\<Union> (set ` set chunks) = {0..<n}"
    unfolding chunks_def using sh' k0 by (rule test_sets_partition(1))
  have disj: "set (chunks ! i) \<inter> set (chunks ! j) = {}" if "i < k" "j < k" "i \<noteq> j" for i j
    unfolding chunks_def using sh' k0 that by (rule test_sets_partition(2))
  have once: "\<exists>!j. j < k \<and> i \<in> set (snd (folds ! j))" if "i < n" for i
  proof -
    have "i \<in> \<Union> (set ` set chunks)" using cover that by simp
    then obtain c where "c \<in> set chunks" "i \<in> set c" by auto
    then obtain j where j: "j < k" "i \<in> set (chunks ! j)"
      by (metis in_set_conv_nth chunks_def length_iter_test_indices)
    show ?thesis
    proof (rule ex1I [of _ j])
      show "j < k \<and> i \<in> set (snd (folds ! j))" using j test by simp
    next
      fix j' assume "j' < k \<and> i \<in> set (snd (folds ! j'))"
      then have "j' < k" "i \<in> set (chunks ! j')" using test by auto
      with j disj [of j j'] show "j' = j" by auto
    qed
  qed
  have shape: "set (snd (folds ! j)) \<subseteq> {0..<n}
      \<and> set (fst (folds ! j)) = {0..<n} - set (snd (folds ! j))
      \<and> set (snd (folds ! j))
          = set (take (fold_sizes k n ! j) (drop (sum_list (take j (fold_sizes k n))) (shuffle [0..<n])))
      \<and> length (snd (folds ! j)) = n div k + (if j < n mod k then 1 else 0)" if j: "j < k" for j
  proof -
    have 1: "set (snd (folds ! j)) \<subseteq> {0..<n}"
      using test [OF j] chunk_facts(2) [where shuffle = shuffle, OF sh' j] by (simp add: chunks_def)
    have 3: "set (snd (folds ! j))
          = set (take (fold_sizes k n ! j) (drop (sum_list (take j (fold_sizes k n))) (shuffle [0..<n])))"
      using test [OF j] nth_iter_test_indices [OF j] by (simp add: chunks_def)
    have "length (snd (folds ! j)) = length (chunks ! j)"
      using length_test_of_chunk [OF chunk_facts [where shuffle = shuffle, OF sh' j]] j by (simp add: folds_def chunks_def)
    also have "\<dots> = fold_sizes k n ! j"
      unfolding chunks_def using shuffle_facts(1) [OF sh'] j by (rule length_nth_iter_test_indices)
    finally have 4: "length (snd (folds ! j)) = n div k + (if j < n mod k then 1 else 0)"
      using nth_fold_sizes [OF j] by simp
    from 1 train [OF j] 3 4 show ?thesis by blast
  qed
  have indep: "KFold_split shuffle k X y' = KFold_split shuffle k X y" if "length y' = length y" for y'
    using that by (simp add: KFold_split_def)
  from split lenf once shape indep show ?thesis
    unfolding n_def by blast
qed

text \<open>
  Claim C3 as stated, for every number of samples, fails: with three samples and five
  folds the splitter raises instead of producing folds.
\<close>

theorem KFold_split_too_few_samples:
  "KFold_split (\<lambda>indices. indices) 5 [10, 11, 12::nat] [0, 1, 0] = Inl NSplitsGreaterThanNSamples"
  by (simp add: KFold_split_def)

subsection \<open>The metrics are bounded and total on binary labels\<close>

lemma tp_sum_le_pred_sum: "tp_sum y_true y_pred l \<le> pred_sum y_pred l"
  unfolding tp_sum_def pred_sum_def
  by (induction y_true y_pred rule: list_induct2') auto

lemma tp_sum_le_true_sum: "tp_sum y_true y_pred l \<le> true_sum y_true l"
  unfolding tp_sum_def true_sum_def
  by (induction y_true y_pred rule: list_induct2') auto

lemma prf_divide_bounds:
  assumes "0 \<le> a" "a \<le> b"
  shows "0 \<le> prf_divide a b" "prf_divide a b \<le> 1"
  using assms by (auto simp: prf_divide_def)

lemma precision_bounds: "0 \<le> precision y_true y_pred l" "precision y_true y_pred l \<le> 1"
  unfolding precision_def
  using prf_divide_bounds [of "real (tp_sum y_true y_pred l)" "real (pred_sum y_pred l)"]
    tp_sum_le_pred_sum [of y_true y_pred l] by simp_all

lemma recall_bounds: "0 \<le> recall y_true y_pred l" "recall y_true y_pred l \<le> 1"
  unfolding recall_def
  using prf_divide_bounds [of "real (tp_sum y_true y_pred l)" "real (true_sum y_true l)"]
    tp_sum_le_true_sum [of y_true y_pred l] by simp_all

lemma harmonic_bounds:
  fixes p r :: real
  assumes "0 \<le> p" "p \<le> 1" "0 \<le> r" "r \<le> 1"
  shows "0 \<le> prf_divide (2 * p * r) (p + r)" "prf_divide (2 * p * r) (p + r) \<le> 1"
proof -
  have "p * r \<le> p * 1" using assms by (intro mult_left_mono) auto
  moreover have "p * r \<le> 1 * r" using assms by (intro mult_right_mono) auto
  ultimately have le: "2 * p * r \<le> p + r" by simp
  have nonneg: "0 \<le> 2 * p * r" using assms by simp
  show "0 \<le> prf_divide (2 * p * r) (p + r)"
    using nonneg le by (rule prf_divide_bounds(1))
  show "prf_divide (2 * p * r) (p + r) \<le> 1"
    using nonneg le by (rule prf_divide_bounds(2))
qed

lemma f_score_bounds: "0 \<le> f_score y_true y_pred l" "f_score y_true y_pred l \<le> 1"
  unfolding f_score_def Let_def
  using harmonic_bounds [OF precision_bounds recall_bounds] by blast+

lemma f1_score_Inr: "f1_score y_true y_pred l = Inr v \<Longrightarrow> v = f_score y_true y_pred l"
  by (auto simp: f1_score_def split: sum.splits)

lemma length_unique_labels: "length (unique_labels a b) = card (set a \<union> set b)"
  by (simp add: unique_labels_def length_remdups_card_conv)

lemma set_unique_labels [simp]: "set (unique_labels a b) = set a \<union> set b"
  by (simp add: unique_labels_def)

lemma f1_score_binary:
  assumes "length y_true = length y_pred" "set y_true \<union> set y_pred \<subseteq> {0, 1}" "l \<in> {0, 1}"
  shows "f1_score y_true y_pred l = Inr (f_score y_true y_pred l)"
proof -
  let ?S = "set y_true \<union> set y_pred"
  have c: "card ?S \<le> 2"
    using card_mono [of "{0, 1::int}" ?S] assms(2) by simp
  have "l \<in> ?S" if "2 \<le> card ?S"
  proof -
    have "card ?S = card {0, 1::int}" using c that by simp
    then have "?S = {0, 1}" using assms(2) by (simp add: card_subset_eq)
    with assms(3) show ?thesis by simp
  qed
  with c assms(1) show ?thesis
    by (auto simp: f1_score_def check_set_wise_labels_def Let_def length_unique_labels)
qed

lemma tp_sum_absent: "l \<notin> set y_true \<Longrightarrow> tp_sum y_true y_pred l = 0"
  unfolding tp_sum_def by (induction y_true y_pred rule: list_induct2') auto

lemma f_score_absent: "l \<notin> set y_true \<Longrightarrow> f_score y_true y_pred l = 0"
  by (simp add: f_score_def precision_def recall_def tp_sum_absent prf_divide_def)

subsection \<open>The cells are instances of the parametrised operation\<close>

lemma magnetism_loop_eq:
  "magnetism_loop fmt X y folds st = cross_validate_loop fmt ''FM'' ''AFM'' 1 0 X y folds st"
proof (induction folds arbitrary: st)
  case Nil
  then show ?case by (cases st) simp
next
  case (Cons f folds)
  obtain k train test where f: "f = (k, train, test)" by (cases f)
  obtain a b c out where st: "st = (a, b, c, out)" by (cases st)
  show ?case unfolding f st
    by (simp add: Let_def Cons.IH split: sum.splits)
qed

lemma topology_loop_eq:
  "topology_loop fmt X y folds st = cross_validate_loop fmt ''Topological'' ''Trivial'' 1 0 X y folds st"
proof (induction folds arbitrary: st)
  case Nil
  then show ?case by (cases st) simp
next
  case (Cons f folds)
  obtain k train test where f: "f = (k, train, test)" by (cases f)
  obtain a b c out where st: "st = (a, b, c, out)" by (cases st)
  show ?case unfolding f st
    by (simp add: Let_def Cons.IH split: sum.splits)
qed

lemma magnetism_cv_cell_eq:
  "magnetism_cv_cell fmt shuffle X y clf = cross_validate fmt shuffle ''FM'' ''AFM'' X y clf 5 1 0"
  by (simp add: magnetism_cv_cell_def cross_validate_def magnetism_loop_eq summary_line_def
      split: sum.splits prod.splits)

lemma topology_cv_cell_eq:
  "topology_cv_cell fmt shuffle X y clf = cross_validate fmt shuffle ''Topological'' ''Trivial'' X y clf 5 1 0"
  by (simp add: topology_cv_cell_def cross_validate_def topology_loop_eq summary_line_def
      split: sum.splits prod.splits)

subsection \<open>What a run of the loop computes\<close>

lemma fit_folds_Cons:
  "fit_folds X y ((train, test) # fs) clf = fit_folds X y fs (fit clf (take_rows X train) (take_rows y train))"
  by (simp add: fit_folds_def)

lemma fit_folds_Nil [simp]: "fit_folds X y [] clf = clf"
  by (simp add: fit_folds_def)

lemma cross_validate_loop_step:
  assumes "cross_validate_loop fmt pn nn p n X y ((m, train, test) # rest) (ps, ns, clf, out) = Inr r"
  shows "\<exists>v w. f1_score (take_rows y test)
                  (predict (fit clf (take_rows X train) (take_rows y train)) (take_rows X test)) p = Inr v
           \<and> f1_score (take_rows y test)
                  (predict (fit clf (take_rows X train) (take_rows y train)) (take_rows X test)) n = Inr w
           \<and> cross_validate_loop fmt pn nn p n X y rest
                (ps @ [v], ns @ [w], fit clf (take_rows X train) (take_rows y train),
                 out @ fold_lines fmt pn nn m v w) = Inr r"
  using assms by (simp add: Let_def fold_lines_def split: sum.splits)

lemma cross_validate_loop_Inr:
  assumes "cross_validate_loop fmt pn nn p n X y (enumerate m folds) (ps, ns, clf, out)
             = Inr (ps', ns', clf', out')"
  shows "\<exists>qs rs. ps' = ps @ qs \<and> ns' = ns @ rs
     \<and> length qs = length folds \<and> length rs = length folds
     \<and> clf' = fit_folds X y folds clf
     \<and> (\<forall>i<length folds.
          f1_score (take_rows y (snd (folds ! i)))
            (predict (fit_folds X y (take (Suc i) folds) clf) (take_rows X (snd (folds ! i)))) p
            = Inr (qs ! i)
        \<and> f1_score (take_rows y (snd (folds ! i)))
            (predict (fit_folds X y (take (Suc i) folds) clf) (take_rows X (snd (folds ! i)))) n
            = Inr (rs ! i))
     \<and> out' = out @ concat (map (\<lambda>i. fold_lines fmt pn nn (m + i) (qs ! i) (rs ! i)) [0..<length folds])"
  using assms
proof (induction folds arbitrary: m ps ns clf out)
  case Nil
  then show ?case by simp
next
  case (Cons f folds)
  obtain train test where f: "f = (train, test)" by (cases f)
  define c1 where "c1 = fit clf (take_rows X train) (take_rows y train)"
  have en: "enumerate m (f # folds) = (m, train, test) # enumerate (Suc m) folds"
    by (simp add: f)
  from cross_validate_loop_step [OF Cons.prems [unfolded en]] obtain v w where
    v: "f1_score (take_rows y test) (predict c1 (take_rows X test)) p = Inr v" and
    w: "f1_score (take_rows y test) (predict c1 (take_rows X test)) n = Inr w" and
    rest: "cross_validate_loop fmt pn nn p n X y (enumerate (Suc m) folds)
             (ps @ [v], ns @ [w], c1, out @ fold_lines fmt pn nn m v w) = Inr (ps', ns', clf', out')"
    unfolding c1_def by blast
  from Cons.IH [OF rest] obtain qs rs where
    IH: "ps' = (ps @ [v]) @ qs" "ns' = (ns @ [w]) @ rs"
        "length qs = length folds" "length rs = length folds"
        "clf' = fit_folds X y folds c1"
        "\<forall>i<length folds.
          f1_score (take_rows y (snd (folds ! i)))
            (predict (fit_folds X y (take (Suc i) folds) c1) (take_rows X (snd (folds ! i)))) p
            = Inr (qs ! i)
        \<and> f1_score (take_rows y (snd (folds ! i)))
            (predict (fit_folds X y (take (Suc i) folds) c1) (take_rows X (snd (folds ! i)))) n
            = Inr (rs ! i)"
        "out' = (out @ fold_lines fmt pn nn m v w)
            @ concat (map (\<lambda>i. fold_lines fmt pn nn (Suc m + i) (qs ! i) (rs ! i)) [0..<length folds])"
    by blast
  have ff: "fit_folds X y (f # fs) clf = fit_folds X y fs c1" for fs
    by (simp add: f c1_def fit_folds_Cons)
  have scores: "f1_score (take_rows y (snd ((f # folds) ! i)))
            (predict (fit_folds X y (take (Suc i) (f # folds)) clf) (take_rows X (snd ((f # folds) ! i)))) p
            = Inr ((v # qs) ! i)
        \<and> f1_score (take_rows y (snd ((f # folds) ! i)))
            (predict (fit_folds X y (take (Suc i) (f # folds)) clf) (take_rows X (snd ((f # folds) ! i)))) n
            = Inr ((w # rs) ! i)" if "i < length (f # folds)" for i
  proof (cases i)
    case 0
    then show ?thesis using v w by (simp add: ff) (simp add: f)
  next
    case (Suc j)
    then have "j < length folds" using that by simp
    with IH(6) Suc show ?thesis by (simp add: ff)
  qed
  have "[0..<length (f # folds)] = 0 # map Suc [0..<length folds]"
    by (simp add: upt_conv_Cons map_Suc_upt del: upt_Suc)
  then have lines: "concat (map (\<lambda>i. fold_lines fmt pn nn (m + i) ((v # qs) ! i) ((w # rs) ! i)) [0..<length (f # folds)])
      = fold_lines fmt pn nn m v w
        @ concat (map (\<lambda>i. fold_lines fmt pn nn (Suc m + i) (qs ! i) (rs ! i)) [0..<length folds])"
    by (simp add: comp_def)
  show ?case
  proof (rule exI [of _ "v # qs"], rule exI [of _ "w # rs"], intro conjI)
    show "ps' = ps @ v # qs" using IH(1) by simp
    show "ns' = ns @ w # rs" using IH(2) by simp
    show "length (v # qs) = length (f # folds)" using IH(3) by simp
    show "length (w # rs) = length (f # folds)" using IH(4) by simp
    show "clf' = fit_folds X y (f # folds) clf" using IH(5) by (simp add: ff)
    show "\<forall>i<length (f # folds).
       f1_score (take_rows y (snd ((f # folds) ! i)))
        (predict (fit_folds X y (take (Suc i) (f # folds)) clf) (take_rows X (snd ((f # folds) ! i)))) p
        = Inr ((v # qs) ! i)
     \<and> f1_score (take_rows y (snd ((f # folds) ! i)))
        (predict (fit_folds X y (take (Suc i) (f # folds)) clf) (take_rows X (snd ((f # folds) ! i)))) n
        = Inr ((w # rs) ! i)"
      using scores by blast
    show "out' = out @ concat (map (\<lambda>i. fold_lines fmt pn nn (m + i) ((v # qs) ! i) ((w # rs) ! i))
                                [0..<length (f # folds)])"
      unfolding lines using IH(7) by simp
  qed
qed

lemma predict_method_fit [simp]: "predict_method (fit c A b) = predict_method c"
  by (simp add: fit_def)

lemma fit_method_fit [simp]: "fit_method (fit c A b) = fit_method c"
  by (simp add: fit_def)

lemma cross_validate_loop_total:
  fixes clf :: "('x, 's) classifier"
  assumes "\<And>(c :: ('x, 's) classifier) k train test. (k, train, test) \<in> set efolds \<Longrightarrow>
             predict_method c = predict_method clf \<Longrightarrow>
             \<exists>v. f1_score (take_rows y test) (predict c (take_rows X test)) p = Inr v"
      and "\<And>(c :: ('x, 's) classifier) k train test. (k, train, test) \<in> set efolds \<Longrightarrow>
             predict_method c = predict_method clf \<Longrightarrow>
             \<exists>w. f1_score (take_rows y test) (predict c (take_rows X test)) n = Inr w"
  shows "\<exists>r. cross_validate_loop fmt pn nn p n X y efolds (ps, ns, clf, out) = Inr r"
  using assms
proof (induction efolds arbitrary: ps ns clf out)
  case Nil
  then show ?case by simp
next
  case (Cons e efolds)
  obtain k train test where e: "e = (k, train, test)" by (cases e)
  define c1 where "c1 = fit clf (take_rows X train) (take_rows y train)"
  have pm: "predict_method c1 = predict_method clf" by (simp add: c1_def)
  from Cons.prems(1) [of k train test c1] pm obtain v where
    v: "f1_score (take_rows y test) (predict c1 (take_rows X test)) p = Inr v" by (auto simp: e)
  from Cons.prems(2) [of k train test c1] pm obtain w where
    w: "f1_score (take_rows y test) (predict c1 (take_rows X test)) n = Inr w" by (auto simp: e)
  have "\<exists>r. cross_validate_loop fmt pn nn p n X y efolds
          (ps @ [v], ns @ [w], c1, out @ fold_lines fmt pn nn k v w) = Inr r"
  proof (rule Cons.IH)
    fix c :: "('x, 's) classifier" and k' train' test'
    assume "(k', train', test') \<in> set efolds" and "predict_method c = predict_method c1"
    then have m: "(k', train', test') \<in> set (e # efolds)" "predict_method c = predict_method clf"
      using pm by simp_all
    show "\<exists>v. f1_score (take_rows y test') (predict c (take_rows X test')) p = Inr v"
      using m by (rule Cons.prems(1))
    show "\<exists>w. f1_score (take_rows y test') (predict c (take_rows X test')) n = Inr w"
      using m by (rule Cons.prems(2))
  qed
  then show ?case
    using v w by (simp add: e Let_def fold_lines_def flip: c1_def)
qed

lemma KFold_split_InrD:
  assumes "KFold_split shuffle k X y = Inr folds"
  shows "2 \<le> k" "k \<le> length X" "length X = length y" "length folds = k"
    "folds = map (train_test_of_chunk (length X)) (iter_test_indices shuffle k (length X))"
  using assms by (auto simp: KFold_split_def split: if_splits)

lemma KFold_split_in_range:
  assumes "KFold_split shuffle k X y = Inr folds" "(train, test) \<in> set folds"
  shows "set train \<subseteq> {0..<length X}" "set test \<subseteq> {0..<length X}"
  using assms(2) unfolding KFold_split_InrD(5) [OF assms(1)]
  by (auto simp: train_test_of_chunk_def)

lemma set_take_rows: "set idx \<subseteq> {0..<length a} \<Longrightarrow> set (take_rows a idx) \<subseteq> set a"
  by (auto simp: take_rows_def)

lemma length_take_rows [simp]: "length (take_rows a idx) = length idx"
  by (simp add: take_rows_def)

lemma cross_validate_Inr:
  assumes "cross_validate fmt shuffle pn nn X y clf k p n = Inr (ps, ns, clf', out)"
  shows "\<exists>folds. KFold_split shuffle k X y = Inr folds \<and> length folds = k
     \<and> length ps = k \<and> length ns = k \<and> clf' = fit_folds X y folds clf
     \<and> (\<forall>i<k.
          f1_score (take_rows y (snd (folds ! i)))
            (predict (fit_folds X y (take (Suc i) folds) clf) (take_rows X (snd (folds ! i)))) p
            = Inr (ps ! i)
        \<and> f1_score (take_rows y (snd (folds ! i)))
            (predict (fit_folds X y (take (Suc i) folds) clf) (take_rows X (snd (folds ! i)))) n
            = Inr (ns ! i))
     \<and> out = report_lines fmt pn nn ps ns"
proof -
  from assms obtain folds out0 where
    split: "KFold_split shuffle k X y = Inr folds" and
    loop: "cross_validate_loop fmt pn nn p n X y (enumerate 0 folds) ([], [], clf, []) = Inr (ps, ns, clf', out0)" and
    out: "out = out0 @ [summary_line fmt pn ps, summary_line fmt nn ns]"
    by (auto simp: cross_validate_def split: sum.splits prod.splits)
  from cross_validate_loop_Inr [OF loop] obtain qs rs where
    r: "ps = [] @ qs" "ns = [] @ rs" "length qs = length folds" "length rs = length folds"
       "clf' = fit_folds X y folds clf"
       "\<forall>i<length folds.
          f1_score (take_rows y (snd (folds ! i)))
            (predict (fit_folds X y (take (Suc i) folds) clf) (take_rows X (snd (folds ! i)))) p
            = Inr (qs ! i)
        \<and> f1_score (take_rows y (snd (folds ! i)))
            (predict (fit_folds X y (take (Suc i) folds) clf) (take_rows X (snd (folds ! i)))) n
            = Inr (rs ! i)"
       "out0 = [] @ concat (map (\<lambda>i. fold_lines fmt pn nn (0 + i) (qs ! i) (rs ! i)) [0..<length folds])"
    by blast
  have lf: "length folds = k" using split by (rule KFold_split_InrD(4))
  have "out = report_lines fmt pn nn ps ns"
    using out r(1,2,3,7) by (simp add: report_lines_def)
  with split lf r show ?thesis by auto
qed

lemma cross_validate_total:
  fixes clf :: "('x, 's) classifier"
  assumes len: "length X = length y" and k: "2 \<le> k" "k \<le> length X"
    and y: "set y \<subseteq> {0, 1}"
    and pred: "\<And>s A. length (predict_method clf s A) = length A \<and> set (predict_method clf s A) \<subseteq> {0, 1}"
    and pn: "p \<in> {0, 1}" "n \<in> {0, 1}"
  shows "\<exists>r. cross_validate fmt shuffle pn nn X y clf k p n = Inr r"
proof -
  define folds where "folds = map (train_test_of_chunk (length X)) (iter_test_indices shuffle k (length X))"
  have split: "KFold_split shuffle k X y = Inr folds"
    using KFold_split_Inr [OF len k] by (simp add: folds_def)
  have ok: "\<exists>v. f1_score (take_rows y test) (predict c (take_rows X test)) l = Inr v"
    if "(j, train, test) \<in> set (enumerate 0 folds)" "predict_method c = predict_method clf" "l \<in> {0, 1}"
    for c :: "('x, 's) classifier" and j train test l
  proof -
    have "j < length folds" "folds ! j = (train, test)"
      using that(1) by (simp_all add: in_set_enumerate_eq)
    then have "(train, test) \<in> set folds" using nth_mem [of j folds] by simp
    then have "set test \<subseteq> {0..<length y}"
      using KFold_split_in_range(2) [OF split] len by simp
    then have "set (take_rows y test) \<subseteq> {0, 1}"
      using set_take_rows [of test y] y by blast
    moreover have "length (predict c (take_rows X test)) = length test"
      "set (predict c (take_rows X test)) \<subseteq> {0, 1}"
      using pred [of "state c" "take_rows X test"] that(2) by (simp_all add: predict_def)
    ultimately show ?thesis
      using f1_score_binary [of "take_rows y test" "predict c (take_rows X test)" l] that(3) by simp
  qed
  have "\<exists>r. cross_validate_loop fmt pn nn p n X y (enumerate 0 folds) ([], [], clf, []) = Inr r"
  proof (rule cross_validate_loop_total)
    fix c :: "('x, 's) classifier" and j train test
    assume a: "(j, train, test) \<in> set (enumerate 0 folds)" "predict_method c = predict_method clf"
    show "\<exists>v. f1_score (take_rows y test) (predict c (take_rows X test)) p = Inr v"
      using a pn(1) by (rule ok)
    show "\<exists>w. f1_score (take_rows y test) (predict c (take_rows X test)) n = Inr w"
      using a pn(2) by (rule ok)
  qed
  then obtain r where r: "cross_validate_loop fmt pn nn p n X y (enumerate 0 folds) ([], [], clf, []) = Inr r"
    by blast
  obtain a b c d where "r = (a, b, c, d)" by (cases r)
  with split r show ?thesis by (simp add: cross_validate_def)
qed

lemma fit_folds_methods [simp]:
  "fit_method (fit_folds X y fs c) = fit_method c"
  "predict_method (fit_folds X y fs c) = predict_method c"
  "classifier.more (fit_folds X y fs c) = classifier.more c"
  by (induction fs arbitrary: c; simp add: fit_folds_def fit_def split: prod.splits)+

lemma loop_rename:
  "without_output (cross_validate_loop fmt pn nn p n X y ef (ps, ns, c, out))
     = without_output (cross_validate_loop fmt pn' nn' p n X y ef (ps, ns, c, out2))"
proof (induction ef arbitrary: ps ns c out out2)
  case Nil
  then show ?case by (simp add: without_output_def)
next
  case (Cons e ef)
  obtain k train test where e: "e = (k, train, test)" by (cases e)
  show ?case unfolding e
    by (simp add: Let_def Cons.IH without_output_def [of "Inl _"] split: sum.splits)
qed

lemma loop_swap:
  assumes "cross_validate_loop fmt pn nn p n X y ef (ps, ns, c, out) = Inr (ps', ns', c', out')"
  shows "\<exists>out''. cross_validate_loop fmt pn' nn' n p X y ef (ns, ps, c, out2) = Inr (ns', ps', c', out'')"
  using assms
proof (induction ef arbitrary: ps ns c out out2)
  case Nil
  then show ?case by simp
next
  case (Cons e ef)
  obtain k train test where e: "e = (k, train, test)" by (cases e)
  from cross_validate_loop_step [OF Cons.prems [unfolded e]] obtain v w where
    v: "f1_score (take_rows y test)
          (predict (fit c (take_rows X train) (take_rows y train)) (take_rows X test)) p = Inr v" and
    w: "f1_score (take_rows y test)
          (predict (fit c (take_rows X train) (take_rows y train)) (take_rows X test)) n = Inr w" and
    rest: "cross_validate_loop fmt pn nn p n X y ef
             (ps @ [v], ns @ [w], fit c (take_rows X train) (take_rows y train),
              out @ fold_lines fmt pn nn k v w) = Inr (ps', ns', c', out')"
    by blast
  from Cons.IH [OF rest, of "out2 @ fold_lines fmt pn' nn' k w v"] obtain out'' where
    "cross_validate_loop fmt pn' nn' n p X y ef
       (ns @ [w], ps @ [v], fit c (take_rows X train) (take_rows y train),
        out2 @ fold_lines fmt pn' nn' k w v) = Inr (ns', ps', c', out'')"
    by blast
  then show ?case using v w by (simp add: e Let_def fold_lines_def)
qed

lemma without_output_summary:
  "without_output (case r of Inl e \<Rightarrow> Inl e
                   | Inr (a, b, c, d) \<Rightarrow> Inr (a, b, c, g a b d)) = without_output r"
  by (auto simp: without_output_def split: sum.splits)

lemma cross_validate_rename:
  "without_output (cross_validate fmt shuffle pn nn X y clf k p n)
     = without_output (cross_validate fmt shuffle pn' nn' X y clf k p n)"
proof (cases "KFold_split shuffle k X y")
  case (Inl e)
  then show ?thesis by (simp add: cross_validate_def)
next
  case (Inr folds)
  have "without_output (cross_validate fmt shuffle pn nn X y clf k p n)
      = without_output (cross_validate_loop fmt pn nn p n X y (enumerate 0 folds) ([], [], clf, []))" for pn nn
    unfolding cross_validate_def Inr sum.case
    by (rule without_output_summary [where g = "\<lambda>a b d. d @ [summary_line fmt pn a, summary_line fmt nn b]"])
  then show ?thesis using loop_rename [of fmt pn nn p n X y "enumerate 0 folds" "[]" "[]" clf "[]" pn' nn' "[]"]
    by simp
qed

lemma cross_validate_swap:
  assumes "cross_validate fmt shuffle pn nn X y clf k p n = Inr (a, b, c, out)"
  shows "\<exists>out'. cross_validate fmt shuffle pn' nn' X y clf k n p = Inr (b, a, c, out')"
proof -
  from assms obtain folds out0 where
    split: "KFold_split shuffle k X y = Inr folds" and
    loop: "cross_validate_loop fmt pn nn p n X y (enumerate 0 folds) ([], [], clf, []) = Inr (a, b, c, out0)"
    by (auto simp: cross_validate_def split: sum.splits prod.splits)
  from loop_swap [OF loop, of pn' nn' "[]"] obtain out'' where
    "cross_validate_loop fmt pn' nn' n p X y (enumerate 0 folds) ([], [], clf, []) = Inr (b, a, c, out'')"
    by blast
  with split show ?thesis by (simp add: cross_validate_def)
qed

lemma split_example: "KFold_split rev 5 X_example y_example = Inr folds_example"
  by code_simp

lemma loop_example_values:
  "map_sum id (\<lambda>(a, b, c, d). (a, b, state c))
    (cross_validate_loop exact_format ''FM'' ''AFM'' 1 0 X_example y_example (enumerate 0 folds_example)
       ([], [], threshold_clf, []))
   = Inr ([1, 2 / 3, 2 / 3, 0, 0], [0, 0, 0, 2 / 3, 1], 3)"
  by code_simp

lemma classifier_eqI:
  fixes c :: "('x, 's) classifier"
  assumes "fit_method c = fit_method c'" "predict_method c = predict_method c'"
    "classifier.more c = classifier.more c'" "state c = s"
  shows "c = c'\<lparr>state := s\<rparr>"
  using assms by (cases c, cases c') simp

lemma cross_validate_example:
  "\<exists>out. cross_validate exact_format rev pn nn X_example y_example threshold_clf 5 1 0
     = Inr ([1, 2 / 3, 2 / 3, 0, 0], [0, 0, 0, 2 / 3, 1], threshold_clf\<lparr>state := 3\<rparr>, out)"
proof -
  obtain r where r: "cross_validate_loop exact_format ''FM'' ''AFM'' 1 0 X_example y_example (enumerate 0 folds_example)
       ([], [], threshold_clf, []) = Inr r"
    using loop_example_values by (cases "cross_validate_loop exact_format ''FM'' ''AFM'' 1 0 X_example y_example
       (enumerate 0 folds_example) ([], [], threshold_clf, [])") simp_all
  obtain a b c d where abcd: "r = (a, b, c, d)" by (cases r)
  from loop_example_values r abcd have v: "a = [1, 2 / 3, 2 / 3, 0, 0]" "b = [0, 0, 0, 2 / 3, 1]" "state c = 3"
    by simp_all
  from cross_validate_loop_Inr [OF r [unfolded abcd]] have "c = fit_folds X_example y_example folds_example threshold_clf"
    by blast
  then have "c = threshold_clf\<lparr>state := 3\<rparr>"
    using v(3) by (intro classifier_eqI) simp_all
  with r abcd v have "cross_validate exact_format rev ''FM'' ''AFM'' X_example y_example threshold_clf 5 1 0
      = Inr ([1, 2 / 3, 2 / 3, 0, 0], [0, 0, 0, 2 / 3, 1], threshold_clf\<lparr>state := 3\<rparr>,
             d @ [summary_line exact_format ''FM'' a, summary_line exact_format ''AFM'' b])"
    by (simp add: cross_validate_def split_example)
  then have "without_output (cross_validate exact_format rev pn nn X_example y_example threshold_clf 5 1 0)
      = Inr ([1, 2 / 3, 2 / 3, 0, 0], [0, 0, 0, 2 / 3, 1], threshold_clf\<lparr>state := 3\<rparr>)"
    using cross_validate_rename [of exact_format rev pn nn X_example y_example threshold_clf 5 1 0 "''FM''" "''AFM''"]
    by (simp add: without_output_def)
  then show ?thesis
    by (cases "cross_validate exact_format rev pn nn X_example y_example threshold_clf 5 1 0")
       (auto simp: without_output_def)
qed

subsection \<open>The small run, evaluated\<close>

lemma round_half_even_unique:
  assumes "real_of_int m - 1 / 2 < x" "x < real_of_int m + 1 / 2"
  shows "round_half_even x = m"
proof -
  have "\<lfloor>x\<rfloor> = m \<or> \<lfloor>x\<rfloor> = m - 1" using assms by linarith
  then show ?thesis
  proof
    assume f: "\<lfloor>x\<rfloor> = m"
    then have "x - of_int \<lfloor>x\<rfloor> < 1 / 2" using assms by simp
    then show ?thesis using f by (simp add: round_half_even_def Let_def)
  next
    assume f: "\<lfloor>x\<rfloor> = m - 1"
    then have "1 / 2 < x - of_int \<lfloor>x\<rfloor>" using assms by simp
    then show ?thesis using f by (simp add: round_half_even_def Let_def)
  qed
qed

lemma summary_example_pos:
  "summary_line exact_format pn [1, 2 / 3, 2 / 3, 0, 0] = pn @ '' Mean: 0.47 median: 0.67 stdev: 0.40''"
proof -
  have m: "exact_format 2 (mean [1, 2 / 3, 2 / 3, 0, 0]) = ''0.47''"
    by code_simp
  have d: "exact_format 2 (median [1, 2 / 3, 2 / 3, 0, 0]) = ''0.67''"
    by code_simp
  have v: "mean (map (\<lambda>x. (x - mean [1, 2 / 3, 2 / 3, 0, 0])\<^sup>2) [1, 2 / 3, 2 / 3, 0, 0]) = (2 / 5)\<^sup>2"
    by code_simp
  have q: "sqrt ((2 / 5)\<^sup>2) = 2 / 5"
    by (simp only: real_sqrt_abs abs_of_pos [of "2 / 5 :: real", simplified])
  have sd: "std [1, 2 / 3, 2 / 3, 0, 0] = 2 / 5"
    unfolding std_def v q ..
  have s: "exact_format 2 (std [1, 2 / 3, 2 / 3, 0, 0]) = ''0.40''"
    unfolding sd by code_simp
  show ?thesis unfolding summary_line_def m d s by simp
qed

lemma summary_example_neg:
  "summary_line exact_format nn [0, 0, 0, 2 / 3, 1] = nn @ '' Mean: 0.33 median: 0.00 stdev: 0.42''"
proof -
  have m: "exact_format 2 (mean [0, 0, 0, 2 / 3, 1]) = ''0.33''"
    by code_simp
  have d: "exact_format 2 (median [0, 0, 0, 2 / 3, 1]) = ''0.00''"
    by code_simp
  have v: "mean (map (\<lambda>x. (x - mean [0, 0, 0, 2 / 3, 1])\<^sup>2) [0, 0, 0, 2 / 3, 1]) = 8 / 45"
    by code_simp
  have sd: "std [0, 0, 0, 2 / 3, 1] = sqrt (8 / 45)"
    unfolding std_def v ..
  have lo: "(83 / 200)\<^sup>2 < (8 / 45 :: real)" by (simp add: power2_eq_square)
  have hi: "(8 / 45 :: real) < (85 / 200)\<^sup>2" by (simp add: power2_eq_square)
  have "sqrt ((83 / 200)\<^sup>2) < sqrt (8 / 45)" using lo by (simp only: real_sqrt_less_iff)
  then have 1: "83 / 200 < sqrt (8 / 45)" by simp
  have "sqrt (8 / 45) < sqrt ((85 / 200)\<^sup>2)" using hi by (simp only: real_sqrt_less_iff)
  then have 2: "sqrt (8 / 45) < 85 / 200" by simp
  have r: "round_half_even (\<bar>sqrt (8 / 45)\<bar> * 10 ^ 2) = 42"
    using 1 2 by (intro round_half_even_unique) simp_all
  have nn: "\<not> sqrt (8 / 45) < 0" by simp
  have "str_nat (nat 42 div 10 ^ 2) = ''0''" "zero_pad 2 (str_nat (nat 42 mod 10 ^ 2)) = ''42''"
    by code_simp+
  then have s: "exact_format 2 (std [0, 0, 0, 2 / 3, 1]) = ''0.42''"
    unfolding sd exact_format_def fixed_point_text_def Let_def r using nn by simp
  show ?thesis unfolding summary_line_def m d s by simp
qed

lemma fold_lines_example:
  "concat (map (\<lambda>i. fold_lines exact_format pn nn i ([1, 2 / 3, 2 / 3, 0, 0] ! i) ([0, 0, 0, 2 / 3, 1] ! i)) [0..<5])
   = [''[fold 0] '' @ pn @ '' score: 1.000'', ''[fold 0] '' @ nn @ '' score: 0.000'',
      ''[fold 1] '' @ pn @ '' score: 0.667'', ''[fold 1] '' @ nn @ '' score: 0.000'',
      ''[fold 2] '' @ pn @ '' score: 0.667'', ''[fold 2] '' @ nn @ '' score: 0.000'',
      ''[fold 3] '' @ pn @ '' score: 0.000'', ''[fold 3] '' @ nn @ '' score: 0.667'',
      ''[fold 4] '' @ pn @ '' score: 0.000'', ''[fold 4] '' @ nn @ '' score: 1.000'']"
proof -
  have f: "exact_format 3 1 = ''1.000''" "exact_format 3 (2 / 3) = ''0.667''" "exact_format 3 0 = ''0.000''"
    by code_simp+
  have n: "str_nat 0 = ''0''" "str_nat 1 = ''1''" "str_nat 2 = ''2''" "str_nat 3 = ''3''" "str_nat 4 = ''4''"
    by code_simp+
  have n1: "str_nat (Suc 0) = ''1''"
    by code_simp
  have u: "[0..<5] = [0, 1, 2, 3, 4]" by code_simp
  show ?thesis unfolding u by (simp add: fold_lines_def f n n1)
qed

lemma report_lines_example:
  "report_lines exact_format ''FM'' ''AFM'' [1, 2 / 3, 2 / 3, 0, 0] [0, 0, 0, 2 / 3, 1] = magnetism_output_example"
  "report_lines exact_format ''Topological'' ''Trivial'' [1, 2 / 3, 2 / 3, 0, 0] [0, 0, 0, 2 / 3, 1] = topology_output_example"
proof -
  have u: "[0..<length [1, 2 / 3, 2 / 3, 0, 0::real]] = [0..<5]"
    by code_simp
  show "report_lines exact_format ''FM'' ''AFM'' [1, 2 / 3, 2 / 3, 0, 0] [0, 0, 0, 2 / 3, 1] = magnetism_output_example"
    unfolding report_lines_def u fold_lines_example summary_example_pos summary_example_neg
      magnetism_output_example_def by simp
  show "report_lines exact_format ''Topological'' ''Trivial'' [1, 2 / 3, 2 / 3, 0, 0] [0, 0, 0, 2 / 3, 1] = topology_output_example"
    unfolding report_lines_def u fold_lines_example summary_example_pos summary_example_neg
      topology_output_example_def by simp
qed

lemma cross_validate_example_full:
  "cross_validate exact_format rev pn nn X_example y_example threshold_clf 5 1 0
     = Inr ([1, 2 / 3, 2 / 3, 0, 0], [0, 0, 0, 2 / 3, 1], threshold_clf\<lparr>state := 3\<rparr>,
            report_lines exact_format pn nn [1, 2 / 3, 2 / 3, 0, 0] [0, 0, 0, 2 / 3, 1])"
proof -
  from cross_validate_example [of pn nn] obtain out where
    r: "cross_validate exact_format rev pn nn X_example y_example threshold_clf 5 1 0
     = Inr ([1, 2 / 3, 2 / 3, 0, 0], [0, 0, 0, 2 / 3, 1], threshold_clf\<lparr>state := 3\<rparr>, out)"
    by blast
  from cross_validate_Inr [OF r] have "out = report_lines exact_format pn nn [1, 2 / 3, 2 / 3, 0, 0] [0, 0, 0, 2 / 3, 1]"
    by blast
  with r show ?thesis by simp
qed

lemma magnetism_example:
  "magnetism_cv_cell exact_format rev X_example y_example threshold_clf
     = Inr ([1, 2 / 3, 2 / 3, 0, 0], [0, 0, 0, 2 / 3, 1], threshold_clf\<lparr>state := 3\<rparr>,
            magnetism_output_example)"
  unfolding magnetism_cv_cell_eq cross_validate_example_full report_lines_example ..

lemma topology_example:
  "topology_cv_cell exact_format rev X_example y_example threshold_clf
     = Inr ([1, 2 / 3, 2 / 3, 0, 0], [0, 0, 0, 2 / 3, 1], threshold_clf\<lparr>state := 3\<rparr>,
            topology_output_example)"
  unfolding topology_cv_cell_eq cross_validate_example_full report_lines_example ..

lemma folds_example_facts:
  "folds_example ! 4 = ([2, 3, 4, 5, 6, 7, 8, 9], [0, 1])"
  "folds_example ! 0 = ([0, 1, 2, 3, 4, 5, 6, 7], [8, 9])"
  "take_rows y_example [0, 1] = [0, 0]" "take_rows y_example [8, 9] = [1, 1]"
  by code_simp+

text \<open>The partition property of claim C3 on the small run.\<close>

theorem KFold_split_partition_witness:
  "mset (rev [0..<length X_example]) = mset [0..<length X_example]
   \<and> length X_example = length y_example \<and> (2::nat) \<le> 5 \<and> 5 \<le> length X_example
   \<and> KFold_split rev 5 X_example y_example = Inr folds_example
   \<and> length folds_example = 5
   \<and> set (snd (folds_example ! 4)) \<subseteq> {0..<length X_example}
   \<and> set (fst (folds_example ! 4)) = {0..<length X_example} - set (snd (folds_example ! 4))
   \<and> length (snd (folds_example ! 4)) = length X_example div 5 + (if 4 < length X_example mod 5 then 1 else 0)"
proof -
  have h1: "mset (rev [0..<length X_example]) = mset [0..<length X_example]" by simp
  have h2: "length X_example = length y_example" by (simp add: X_example_def y_example_def)
  have h3: "(2::nat) \<le> 5" by simp
  have h4: "5 \<le> length X_example" by (simp add: X_example_def)
  from KFold_split_partition [where shuffle = rev, OF h1 h2 h3 h4] obtain folds where
    f: "KFold_split rev 5 X_example y_example = Inr folds" "length folds = 5"
       "\<forall>j<5. set (snd (folds ! j)) \<subseteq> {0..<length X_example}
            \<and> set (fst (folds ! j)) = {0..<length X_example} - set (snd (folds ! j))
            \<and> set (snd (folds ! j))
                = set (take (fold_sizes 5 (length X_example) ! j)
                        (drop (sum_list (take j (fold_sizes 5 (length X_example)))) (rev [0..<length X_example])))
            \<and> length (snd (folds ! j)) = length X_example div 5 + (if j < length X_example mod 5 then 1 else 0)"
    by blast
  from f(1) have e: "folds = folds_example" by (simp add: split_example)
  have "(4::nat) < 5" by simp
  with f(3) have "set (snd (folds ! 4)) \<subseteq> {0..<length X_example}
            \<and> set (fst (folds ! 4)) = {0..<length X_example} - set (snd (folds ! 4))
            \<and> length (snd (folds ! 4)) = length X_example div 5 + (if 4 < length X_example mod 5 then 1 else 0)"
    by blast
  with f(1,2) h1 h2 h3 h4 show ?thesis unfolding e by blast
qed

subsection \<open>The cross-validation loop\<close>

lemma fit_folds_take_Suc:
  assumes "i < length folds"
  shows "fit_folds X y (take (Suc i) folds) c
       = fit (fit_folds X y (take i folds) c)
           (take_rows X (fst (folds ! i))) (take_rows y (fst (folds ! i)))"
  using assms by (simp add: fit_folds_def take_Suc_conv_app_nth split: prod.splits)

lemma KFold_split_sets:
  assumes split: "KFold_split shuffle k X y = Inr folds"
    and sh: "mset (shuffle [0..<length X]) = mset [0..<length X]"
  shows "\<And>j. j < k \<Longrightarrow> set (fst (folds ! j)) = {0..<length X} - set (snd (folds ! j))"
    and "(\<Union>j\<in>{0..<k}. set (snd (folds ! j))) = {0..<length X}"
    and "\<And>i j. i < k \<Longrightarrow> j < k \<Longrightarrow> i \<noteq> j \<Longrightarrow> set (snd (folds ! i)) \<inter> set (snd (folds ! j)) = {}"
proof -
  define n where "n = length X"
  define chunks where "chunks = iter_test_indices shuffle k n"
  have folds: "folds = map (train_test_of_chunk n) chunks"
    using KFold_split_InrD(5) [OF split] by (simp add: n_def chunks_def)
  have k0: "0 < k" using KFold_split_InrD(1) [OF split] by simp
  have lc: "length chunks = k" by (simp add: chunks_def)
  have sh': "mset (shuffle [0..<n]) = mset [0..<n]" using sh by (simp add: n_def)
  have test: "set (snd (folds ! j)) = set (chunks ! j)" if "j < k" for j
    using test_set_eq_chunk [where shuffle = shuffle, OF sh' that] that lc by (simp add: folds chunks_def)
  show "set (fst (folds ! j)) = {0..<length X} - set (snd (folds ! j))" if "j < k" for j
    using that test [OF that] lc by (simp add: folds set_train_test_of_chunk n_def)
  have "\<Union> (set ` set chunks) = {0..<n}"
    unfolding chunks_def using sh' k0 by (rule test_sets_partition(1))
  moreover have "set chunks = (!) chunks ` {0..<k}"
    using nth_image [of k chunks] lc by simp
  then have "\<Union> (set ` set chunks) = (\<Union>j\<in>{0..<k}. set (chunks ! j))"
    by simp
  ultimately show "(\<Union>j\<in>{0..<k}. set (snd (folds ! j))) = {0..<length X}"
    using test by (simp add: n_def)
  show "set (snd (folds ! i)) \<inter> set (snd (folds ! j)) = {}" if "i < k" "j < k" "i \<noteq> j" for i j
    using test_sets_partition(2) [where shuffle = shuffle, OF sh' k0 that] test that
    by (simp add: chunks_def)
qed

lemma train_is_union_of_other_tests:
  assumes split: "KFold_split shuffle k X y = Inr folds"
    and sh: "mset (shuffle [0..<length X]) = mset [0..<length X]"
    and i: "i < k"
  shows "set (fst (folds ! i)) = (\<Union>j\<in>{0..<k} - {i}. set (snd (folds ! j)))"
proof -
  note s = KFold_split_sets [OF split sh]
  have "{0..<length X} - set (snd (folds ! i)) = (\<Union>j\<in>{0..<k} - {i}. set (snd (folds ! j)))"
  proof (intro equalityI subsetI)
    fix x assume "x \<in> {0..<length X} - set (snd (folds ! i))"
    then have "x \<in> (\<Union>j\<in>{0..<k}. set (snd (folds ! j)))" "x \<notin> set (snd (folds ! i))"
      using s(2) by auto
    then show "x \<in> (\<Union>j\<in>{0..<k} - {i}. set (snd (folds ! j)))" by auto
  next
    fix x assume "x \<in> (\<Union>j\<in>{0..<k} - {i}. set (snd (folds ! j)))"
    then obtain j where "j \<in> {0..<k} - {i}" and xj: "x \<in> set (snd (folds ! j))" by blast
    then have j: "j < k" "j \<noteq> i" "x \<in> set (snd (folds ! j))" by simp_all
    then have "x \<in> {0..<length X}" using s(2) by (metis UN_I atLeastLessThan_iff le0)
    moreover have "x \<notin> set (snd (folds ! i))" using s(3) [OF i j(1)] j by auto
    ultimately show "x \<in> {0..<length X} - set (snd (folds ! i))" by simp
  qed
  with s(1) [OF i] show ?thesis by simp
qed

text \<open>
  Claim C2.  Whenever the magnetism cross-validation cell completes (and the shuffle
  permutes the index array), the splitter has returned five folds and, for every fold
  \<open>i\<close> in \<open>0..4\<close>: the train indices are the union of the test indices of all the
  other folds; the classifier is fitted on the train rows, starting from the object the
  previous folds left; the entries \<open>i\<close> of \<^verbatim>\<open>fm_scores\<close> and \<^verbatim>\<open>afm_scores\<close> are
  the F1 scores of the true labels of fold \<open>i\<close> against the predictions of that fitted
  classifier on fold \<open>i\<close>, with positive label 1 and with positive label 0; and both
  score lists have length five.
\<close>

theorem cross_validation_per_fold:
  assumes run: "magnetism_cv_cell fmt shuffle X_train y_train clf = Inr (fm_scores, afm_scores, clf', out)"
    and sh: "mset (shuffle [0..<length X_train]) = mset [0..<length X_train]"
  shows "\<exists>folds. KFold_split shuffle 5 X_train y_train = Inr folds \<and> length folds = 5
     \<and> length fm_scores = 5 \<and> length afm_scores = 5
     \<and> (\<forall>i<5.
          set (fst (folds ! i)) = (\<Union>j\<in>{0..<5} - {i}. set (snd (folds ! j)))
        \<and> f1_score (take_rows y_train (snd (folds ! i)))
            (predict (fit (fit_folds X_train y_train (take i folds) clf)
                        (take_rows X_train (fst (folds ! i))) (take_rows y_train (fst (folds ! i))))
               (take_rows X_train (snd (folds ! i)))) 1
            = Inr (fm_scores ! i)
        \<and> f1_score (take_rows y_train (snd (folds ! i)))
            (predict (fit (fit_folds X_train y_train (take i folds) clf)
                        (take_rows X_train (fst (folds ! i))) (take_rows y_train (fst (folds ! i))))
               (take_rows X_train (snd (folds ! i)))) 0
            = Inr (afm_scores ! i))"
proof -
  from cross_validate_Inr [OF run [unfolded magnetism_cv_cell_eq]] obtain folds where
    f: "KFold_split shuffle 5 X_train y_train = Inr folds" "length folds = 5"
       "length fm_scores = 5" "length afm_scores = 5"
       "\<forall>i<5.
          f1_score (take_rows y_train (snd (folds ! i)))
            (predict (fit_folds X_train y_train (take (Suc i) folds) clf) (take_rows X_train (snd (folds ! i)))) 1
            = Inr (fm_scores ! i)
        \<and> f1_score (take_rows y_train (snd (folds ! i)))
            (predict (fit_folds X_train y_train (take (Suc i) folds) clf) (take_rows X_train (snd (folds ! i)))) 0
            = Inr (afm_scores ! i)"
    by blast
  have "set (fst (folds ! i)) = (\<Union>j\<in>{0..<5} - {i}. set (snd (folds ! j)))
        \<and> f1_score (take_rows y_train (snd (folds ! i)))
            (predict (fit (fit_folds X_train y_train (take i folds) clf)
                        (take_rows X_train (fst (folds ! i))) (take_rows y_train (fst (folds ! i))))
               (take_rows X_train (snd (folds ! i)))) 1
            = Inr (fm_scores ! i)
        \<and> f1_score (take_rows y_train (snd (folds ! i)))
            (predict (fit (fit_folds X_train y_train (take i folds) clf)
                        (take_rows X_train (fst (folds ! i))) (take_rows y_train (fst (folds ! i))))
               (take_rows X_train (snd (folds ! i)))) 0
            = Inr (afm_scores ! i)" if i: "i < 5" for i
  proof -
    have "i < length folds" using i f(2) by simp
    then have e: "fit_folds X_train y_train (take (Suc i) folds) clf
        = fit (fit_folds X_train y_train (take i folds) clf)
            (take_rows X_train (fst (folds ! i))) (take_rows y_train (fst (folds ! i)))"
      by (rule fit_folds_take_Suc)
    from f(5) i have
      "f1_score (take_rows y_train (snd (folds ! i)))
            (predict (fit_folds X_train y_train (take (Suc i) folds) clf) (take_rows X_train (snd (folds ! i)))) 1
            = Inr (fm_scores ! i)
        \<and> f1_score (take_rows y_train (snd (folds ! i)))
            (predict (fit_folds X_train y_train (take (Suc i) folds) clf) (take_rows X_train (snd (folds ! i)))) 0
            = Inr (afm_scores ! i)"
      by blast
    then show ?thesis
      unfolding e using train_is_union_of_other_tests [OF f(1) sh i] by blast
  qed
  with f(1-4) show ?thesis by blast
qed

theorem cross_validation_per_fold_witness:
  "magnetism_cv_cell exact_format rev X_example y_example threshold_clf
     = Inr ([1, 2 / 3, 2 / 3, 0, 0], [0, 0, 0, 2 / 3, 1], threshold_clf\<lparr>state := 3\<rparr>,
            magnetism_output_example)
   \<and> mset (rev [0..<length X_example]) = mset [0..<length X_example]
   \<and> KFold_split rev 5 X_example y_example = Inr folds_example \<and> length folds_example = 5
   \<and> length [1, 2 / 3, 2 / 3, 0, 0::real] = 5 \<and> length [0, 0, 0, 2 / 3, 1::real] = 5
   \<and> set (fst (folds_example ! 1)) = (\<Union>j\<in>{0..<5} - {1}. set (snd (folds_example ! j)))
   \<and> f1_score (take_rows y_example (snd (folds_example ! 1)))
        (predict (fit (fit_folds X_example y_example (take 1 folds_example) threshold_clf)
                    (take_rows X_example (fst (folds_example ! 1))) (take_rows y_example (fst (folds_example ! 1))))
           (take_rows X_example (snd (folds_example ! 1)))) 1
        = Inr ([1, 2 / 3, 2 / 3, 0, 0] ! 1)
   \<and> f1_score (take_rows y_example (snd (folds_example ! 1)))
        (predict (fit (fit_folds X_example y_example (take 1 folds_example) threshold_clf)
                    (take_rows X_example (fst (folds_example ! 1))) (take_rows y_example (fst (folds_example ! 1))))
           (take_rows X_example (snd (folds_example ! 1)))) 0
        = Inr ([0, 0, 0, 2 / 3, 1] ! 1)"
proof -
  have sh: "mset (rev [0..<length X_example]) = mset [0..<length X_example]"
    by simp
  from cross_validation_per_fold [OF magnetism_example sh] obtain folds where
    f: "KFold_split rev 5 X_example y_example = Inr folds" "length folds = 5"
     "length [1, 2 / 3, 2 / 3, 0, 0::real] = 5" "length [0, 0, 0, 2 / 3, 1::real] = 5"
     "\<forall>i<5.
          set (fst (folds ! i)) = (\<Union>j\<in>{0..<5} - {i}. set (snd (folds ! j)))
        \<and> f1_score (take_rows y_example (snd (folds ! i)))
            (predict (fit (fit_folds X_example y_example (take i folds) threshold_clf)
                        (take_rows X_example (fst (folds ! i))) (take_rows y_example (fst (folds ! i))))
               (take_rows X_example (snd (folds ! i)))) 1
            = Inr ([1, 2 / 3, 2 / 3, 0, 0] ! i)
        \<and> f1_score (take_rows y_example (snd (folds ! i)))
            (predict (fit (fit_folds X_example y_example (take i folds) threshold_clf)
                        (take_rows X_example (fst (folds ! i))) (take_rows y_example (fst (folds ! i))))
               (take_rows X_example (snd (folds ! i)))) 0
            = Inr ([0, 0, 0, 2 / 3, 1] ! i)"
    by blast
  from f(1) have e: "folds = folds_example" by (simp add: split_example)
  have "(1::nat) < 5" by simp
  with f(5) have "set (fst (folds ! 1)) = (\<Union>j\<in>{0..<5} - {1}. set (snd (folds ! j)))
        \<and> f1_score (take_rows y_example (snd (folds ! 1)))
            (predict (fit (fit_folds X_example y_example (take 1 folds) threshold_clf)
                        (take_rows X_example (fst (folds ! 1))) (take_rows y_example (fst (folds ! 1))))
               (take_rows X_example (snd (folds ! 1)))) 1
            = Inr ([1, 2 / 3, 2 / 3, 0, 0] ! 1)
        \<and> f1_score (take_rows y_example (snd (folds ! 1)))
            (predict (fit (fit_folds X_example y_example (take 1 folds) threshold_clf)
                        (take_rows X_example (fst (folds ! 1))) (take_rows y_example (fst (folds ! 1))))
               (take_rows X_example (snd (folds ! 1)))) 0
            = Inr ([0, 0, 0, 2 / 3, 1] ! 1)"
    by blast
  with f(1-4) magnetism_example sh show ?thesis unfolding e by blast
qed

subsection \<open>Scores\<close>

lemma cross_validate_scores_bounded:
  assumes "cross_validate fmt shuffle pn nn X y clf k p n = Inr (a, b, c, out)" "s \<in> set a \<union> set b"
  shows "0 \<le> s \<and> s \<le> 1"
proof -
  from cross_validate_Inr [OF assms(1)] obtain folds where
    f: "length a = k" "length b = k"
       "\<forall>i<k.
          f1_score (take_rows y (snd (folds ! i)))
            (predict (fit_folds X y (take (Suc i) folds) clf) (take_rows X (snd (folds ! i)))) p
            = Inr (a ! i)
        \<and> f1_score (take_rows y (snd (folds ! i)))
            (predict (fit_folds X y (take (Suc i) folds) clf) (take_rows X (snd (folds ! i)))) n
            = Inr (b ! i)"
    by blast
  from assms(2) f(1,2) obtain i where i: "i < k" "s = a ! i \<or> s = b ! i"
    by (auto simp: in_set_conv_nth)
  from f(3) i(1) have
    "a ! i = f_score (take_rows y (snd (folds ! i)))
            (predict (fit_folds X y (take (Suc i) folds) clf) (take_rows X (snd (folds ! i)))) p"
    "b ! i = f_score (take_rows y (snd (folds ! i)))
            (predict (fit_folds X y (take (Suc i) folds) clf) (take_rows X (snd (folds ! i)))) n"
    using f1_score_Inr by blast+
  with i(2) show ?thesis using f_score_bounds by metis
qed

lemma f1_example: "f1_score [1, 0] [1, 1] 1 = Inr (2 / 3)"
  by code_simp

lemma f1_single_class_example:
  "f1_score [1, 1] [1, 1] 0 = Inr 0" "f1_score [0, 0] [0, 0] 1 = Inr 0" "f1_score [0, 0] [1, 1] 1 = Inr 0"
  by code_simp+

text \<open>
  Claim C7.  Every per-fold F1 score that a cross-validation cell records, in the
  magnetism cell and in the topology cell and for both class polarities, lies in the
  closed interval from 0 to 1; so does every value that the F1 metric returns.
\<close>

theorem f1_scores_in_unit_interval:
  "(magnetism_cv_cell fmt shuffle X_train y_train clf = Inr (fm_scores, afm_scores, clf', out)
      \<longrightarrow> (\<forall>s \<in> set fm_scores \<union> set afm_scores. 0 \<le> s \<and> s \<le> 1))
   \<and> (topology_cv_cell fmt shuffle X_train y_train clf = Inr (topo_scores, triv_scores, clf'', out')
      \<longrightarrow> (\<forall>s \<in> set topo_scores \<union> set triv_scores. 0 \<le> s \<and> s \<le> 1))
   \<and> (f1_score y_true y_pred pos_label = Inr v \<longrightarrow> 0 \<le> v \<and> v \<le> 1)"
proof (intro conjI impI ballI)
  fix s assume "magnetism_cv_cell fmt shuffle X_train y_train clf = Inr (fm_scores, afm_scores, clf', out)"
    and "s \<in> set fm_scores \<union> set afm_scores"
  then show "0 \<le> s" "s \<le> 1"
    using cross_validate_scores_bounded [of fmt shuffle "''FM''" "''AFM''" X_train y_train clf 5 1 0]
    by (simp_all add: magnetism_cv_cell_eq)
next
  fix s assume "topology_cv_cell fmt shuffle X_train y_train clf = Inr (topo_scores, triv_scores, clf'', out')"
    and "s \<in> set topo_scores \<union> set triv_scores"
  then show "0 \<le> s" "s \<le> 1"
    using cross_validate_scores_bounded [of fmt shuffle "''Topological''" "''Trivial''" X_train y_train clf 5 1 0]
    by (simp_all add: topology_cv_cell_eq)
next
  assume "f1_score y_true y_pred pos_label = Inr v"
  then have "v = f_score y_true y_pred pos_label" by (rule f1_score_Inr)
  then show "0 \<le> v" "v \<le> 1" using f_score_bounds by simp_all
qed

theorem f1_scores_in_unit_interval_witness:
  "magnetism_cv_cell exact_format rev X_example y_example threshold_clf
     = Inr ([1, 2 / 3, 2 / 3, 0, 0], [0, 0, 0, 2 / 3, 1], threshold_clf\<lparr>state := 3\<rparr>,
            magnetism_output_example)
   \<and> topology_cv_cell exact_format rev X_example y_example threshold_clf
     = Inr ([1, 2 / 3, 2 / 3, 0, 0], [0, 0, 0, 2 / 3, 1], threshold_clf\<lparr>state := 3\<rparr>,
            topology_output_example)
   \<and> f1_score [1, 0] [1, 1] 1 = Inr (2 / 3)
   \<and> 2 / 3 \<in> set [1, 2 / 3, 2 / 3, 0, 0 :: real] \<union> set [0, 0, 0, 2 / 3, 1]
   \<and> 0 \<le> (2 / 3 :: real) \<and> (2 / 3 :: real) \<le> 1"
proof -
  have m: "2 / 3 \<in> set [1, 2 / 3, 2 / 3, 0, 0 :: real] \<union> set [0, 0, 0, 2 / 3, 1]"
    by simp
  from f1_scores_in_unit_interval [of exact_format rev X_example y_example threshold_clf
      "[1, 2 / 3, 2 / 3, 0, 0]" "[0, 0, 0, 2 / 3, 1]" "threshold_clf\<lparr>state := 3\<rparr>"
      magnetism_output_example "[1, 2 / 3, 2 / 3, 0, 0]" "[0, 0, 0, 2 / 3, 1]"
      "threshold_clf\<lparr>state := 3\<rparr>" topology_output_example "[1, 0]" "[1, 1]" 1 "2 / 3"]
    magnetism_example topology_example f1_example m
  show ?thesis by blast
qed

text \<open>
  Claim C8.  With binary labels, at least five samples, and a classifier whose
  predictions are binary and as many as the rows it is given, the magnetism
  cross-validation cell never raises, whichever classes a fold's train or test subset
  contains: it completes all five folds and returns two score lists of length five.  A
  fold whose test labels lack the positive (negative) class gets the well-defined score
  0 for that polarity.  (The \<^verbatim>\<open>fit\<close> method is the classifier's own and is total in
  this model.)
\<close>

theorem degenerate_folds_do_not_raise:
  fixes clf :: "('x, 's) classifier"
  assumes len: "length X_train = length y_train" and n: "5 \<le> length X_train"
    and y: "set y_train \<subseteq> {0, 1}"
    and pred: "\<And>s A. length (predict_method clf s A) = length A \<and> set (predict_method clf s A) \<subseteq> {0, 1}"
  shows "\<exists>fm_scores afm_scores clf' out folds.
       magnetism_cv_cell fmt shuffle X_train y_train clf = Inr (fm_scores, afm_scores, clf', out)
     \<and> KFold_split shuffle 5 X_train y_train = Inr folds
     \<and> length fm_scores = 5 \<and> length afm_scores = 5
     \<and> (\<forall>i<5. (1 \<notin> set (take_rows y_train (snd (folds ! i))) \<longrightarrow> fm_scores ! i = 0)
             \<and> (0 \<notin> set (take_rows y_train (snd (folds ! i))) \<longrightarrow> afm_scores ! i = 0))"
proof -
  have "\<exists>r. cross_validate fmt shuffle ''FM'' ''AFM'' X_train y_train clf 5 1 0 = Inr r"
    using len _ n y pred by (rule cross_validate_total) simp_all
  then obtain r where r: "magnetism_cv_cell fmt shuffle X_train y_train clf = Inr r"
    by (auto simp: magnetism_cv_cell_eq)
  obtain a b c out where abcd: "r = (a, b, c, out)" by (cases r)
  from cross_validate_Inr [OF r [unfolded magnetism_cv_cell_eq abcd]] obtain folds where
    f: "KFold_split shuffle 5 X_train y_train = Inr folds" "length a = 5" "length b = 5"
       "\<forall>i<5.
          f1_score (take_rows y_train (snd (folds ! i)))
            (predict (fit_folds X_train y_train (take (Suc i) folds) clf) (take_rows X_train (snd (folds ! i)))) 1
            = Inr (a ! i)
        \<and> f1_score (take_rows y_train (snd (folds ! i)))
            (predict (fit_folds X_train y_train (take (Suc i) folds) clf) (take_rows X_train (snd (folds ! i)))) 0
            = Inr (b ! i)"
    by blast
  have "(1 \<notin> set (take_rows y_train (snd (folds ! i))) \<longrightarrow> a ! i = 0)
      \<and> (0 \<notin> set (take_rows y_train (snd (folds ! i))) \<longrightarrow> b ! i = 0)" if "i < 5" for i
    using f(4) that f1_score_Inr f_score_absent by metis
  with r abcd f(1-3) show ?thesis by blast
qed

theorem degenerate_folds_do_not_raise_witness:
  "length X_example = length y_example \<and> 5 \<le> length X_example \<and> set y_example \<subseteq> {0, 1}
   \<and> (\<forall>s A. length (predict_method threshold_clf s A) = length A
             \<and> set (predict_method threshold_clf s A) \<subseteq> {0, 1})
   \<and> take_rows y_example (snd (folds_example ! 4)) = [0, 0]
   \<and> take_rows y_example (snd (folds_example ! 0)) = [1, 1]
   \<and> (\<exists>fm_scores afm_scores clf' out.
       magnetism_cv_cell exact_format rev X_example y_example threshold_clf = Inr (fm_scores, afm_scores, clf', out)
     \<and> KFold_split rev 5 X_example y_example = Inr folds_example
     \<and> length fm_scores = 5 \<and> length afm_scores = 5
     \<and> fm_scores ! 4 = 0 \<and> afm_scores ! 0 = 0)"
proof -
  have h1: "length X_example = length y_example"
    by (simp add: X_example_def y_example_def)
  have h2: "5 \<le> length X_example"
    by (simp add: X_example_def)
  have h3: "set y_example \<subseteq> {0, 1}"
    by (simp add: y_example_def)
  have h4: "length (predict_method threshold_clf s A) = length A
      \<and> set (predict_method threshold_clf s A) \<subseteq> {0, 1}" for s A
    by (auto simp: threshold_clf_def threshold_predict_def)
  have t: "take_rows y_example (snd (folds_example ! 4)) = [0, 0]"
    "take_rows y_example (snd (folds_example ! 0)) = [1, 1]"
    by code_simp+
  from degenerate_folds_do_not_raise [where shuffle = rev, OF h1 h2 h3 h4]
  obtain fm_scores afm_scores clf' out folds where
    r: "magnetism_cv_cell exact_format rev X_example y_example threshold_clf = Inr (fm_scores, afm_scores, clf', out)"
       "KFold_split rev 5 X_example y_example = Inr folds"
       "length fm_scores = 5" "length afm_scores = 5"
       "\<forall>i<5. (1 \<notin> set (take_rows y_example (snd (folds ! i))) \<longrightarrow> fm_scores ! i = 0)
             \<and> (0 \<notin> set (take_rows y_example (snd (folds ! i))) \<longrightarrow> afm_scores ! i = 0)"
    by blast
  from r(2) have e: "folds = folds_example" by (simp add: split_example)
  from r(5) t have "fm_scores ! 4 = 0" "afm_scores ! 0 = 0"
    unfolding e by simp_all
  with r(1-4) h1 h2 h3 h4 t show ?thesis unfolding e by blast
qed

subsection \<open>Exchanging the labels, and the two cells compared\<close>

text \<open>
  Claim C5.  The two cells are \<open>cross_validate\<close> at positive label 1 and negative label
  0.  If \<open>cross_validate\<close> completes with score lists \<open>pos_scores\<close> and
  \<open>neg_scores\<close>, then with the positive and the negative label exchanged (same shuffle,
  data and classifier) it completes too, with the two score lists exchanged and the same
  classifier; so for every fold the unordered pair of its two F1 values is unchanged.
\<close>

theorem swap_labels_swaps_sequences:
  "magnetism_cv_cell fmt shuffle X y clf = cross_validate fmt shuffle ''FM'' ''AFM'' X y clf 5 1 0
   \<and> topology_cv_cell fmt shuffle X y clf = cross_validate fmt shuffle ''Topological'' ''Trivial'' X y clf 5 1 0
   \<and> (cross_validate fmt shuffle pos_name neg_name X y clf k positive_label negative_label
         = Inr (pos_scores, neg_scores, clf', out)
      \<longrightarrow> (\<exists>pos_scores' neg_scores' out'.
            cross_validate fmt shuffle pos_name neg_name X y clf k negative_label positive_label
              = Inr (pos_scores', neg_scores', clf', out')
          \<and> pos_scores' = neg_scores \<and> neg_scores' = pos_scores
          \<and> (\<forall>i<k. {pos_scores' ! i, neg_scores' ! i} = {pos_scores ! i, neg_scores ! i})))"
proof (intro conjI impI)
  show "magnetism_cv_cell fmt shuffle X y clf = cross_validate fmt shuffle ''FM'' ''AFM'' X y clf 5 1 0"
    by (rule magnetism_cv_cell_eq)
  show "topology_cv_cell fmt shuffle X y clf = cross_validate fmt shuffle ''Topological'' ''Trivial'' X y clf 5 1 0"
    by (rule topology_cv_cell_eq)
  assume "cross_validate fmt shuffle pos_name neg_name X y clf k positive_label negative_label
         = Inr (pos_scores, neg_scores, clf', out)"
  from cross_validate_swap [OF this, of pos_name neg_name] obtain out' where
    "cross_validate fmt shuffle pos_name neg_name X y clf k negative_label positive_label
       = Inr (neg_scores, pos_scores, clf', out')"
    by blast
  then show "\<exists>pos_scores' neg_scores' out'.
            cross_validate fmt shuffle pos_name neg_name X y clf k negative_label positive_label
              = Inr (pos_scores', neg_scores', clf', out')
          \<and> pos_scores' = neg_scores \<and> neg_scores' = pos_scores
          \<and> (\<forall>i<k. {pos_scores' ! i, neg_scores' ! i} = {pos_scores ! i, neg_scores ! i})"
    by (auto simp: insert_commute)
qed

theorem swap_labels_swaps_sequences_witness:
  "cross_validate exact_format rev ''FM'' ''AFM'' X_example y_example threshold_clf 5 1 0
     = Inr ([1, 2 / 3, 2 / 3, 0, 0], [0, 0, 0, 2 / 3, 1], threshold_clf\<lparr>state := 3\<rparr>,
            magnetism_output_example)
   \<and> (\<exists>out'. cross_validate exact_format rev ''FM'' ''AFM'' X_example y_example threshold_clf 5 0 1
        = Inr ([0, 0, 0, 2 / 3, 1], [1, 2 / 3, 2 / 3, 0, 0], threshold_clf\<lparr>state := 3\<rparr>, out'))"
proof -
  have h: "cross_validate exact_format rev ''FM'' ''AFM'' X_example y_example threshold_clf 5 1 0
     = Inr ([1, 2 / 3, 2 / 3, 0, 0], [0, 0, 0, 2 / 3, 1], threshold_clf\<lparr>state := 3\<rparr>,
            magnetism_output_example)"
    using magnetism_example by (simp only: magnetism_cv_cell_eq)
  from swap_labels_swaps_sequences [of exact_format rev X_example y_example threshold_clf "''FM''" "''AFM''" 5 1 0
      "[1, 2 / 3, 2 / 3, 0, 0]" "[0, 0, 0, 2 / 3, 1]" "threshold_clf\<lparr>state := 3\<rparr>" magnetism_output_example] h
  show ?thesis by blast
qed

text \<open>
  Claim C10.  On the same training data, classifier and shuffle, the magnetism cell and
  the topology cell return the same score lists and the same classifier, or raise the same
  error; the lines they print are the same function of the two score lists, applied to the
  class names FM and AFM in one cell and Topological and Trivial in the other, so the
  printed per-fold scores and summary statistics agree and only the class names differ.
\<close>

theorem magnetism_topology_same_procedure:
  "without_output (magnetism_cv_cell fmt shuffle X_train y_train clf)
     = without_output (topology_cv_cell fmt shuffle X_train y_train clf)
   \<and> (magnetism_cv_cell fmt shuffle X_train y_train clf = Inr (pos_scores, neg_scores, clf', out)
      \<longrightarrow> out = report_lines fmt ''FM'' ''AFM'' pos_scores neg_scores
        \<and> topology_cv_cell fmt shuffle X_train y_train clf
            = Inr (pos_scores, neg_scores, clf', report_lines fmt ''Topological'' ''Trivial'' pos_scores neg_scores))
   \<and> (topology_cv_cell fmt shuffle X_train y_train clf = Inr (pos_scores, neg_scores, clf', out)
      \<longrightarrow> out = report_lines fmt ''Topological'' ''Trivial'' pos_scores neg_scores
        \<and> magnetism_cv_cell fmt shuffle X_train y_train clf
            = Inr (pos_scores, neg_scores, clf', report_lines fmt ''FM'' ''AFM'' pos_scores neg_scores))"
proof -
  have same: "without_output (magnetism_cv_cell fmt shuffle X_train y_train clf)
     = without_output (topology_cv_cell fmt shuffle X_train y_train clf)"
    unfolding magnetism_cv_cell_eq topology_cv_cell_eq by (rule cross_validate_rename)
  have other: "cross_validate fmt shuffle pn' nn' X_train y_train clf 5 1 0
        = Inr (a, b, c, report_lines fmt pn' nn' a b) \<and> out = report_lines fmt pn nn a b"
    if r: "cross_validate fmt shuffle pn nn X_train y_train clf 5 1 0 = Inr (a, b, c, out)"
    for pn nn pn' nn' a b c out
  proof -
    have "without_output (cross_validate fmt shuffle pn' nn' X_train y_train clf 5 1 0) = Inr (a, b, c)"
      using cross_validate_rename [of fmt shuffle pn' nn' X_train y_train clf 5 1 0 pn nn] r
      by (simp add: without_output_def)
    then obtain out' where r': "cross_validate fmt shuffle pn' nn' X_train y_train clf 5 1 0 = Inr (a, b, c, out')"
      by (cases "cross_validate fmt shuffle pn' nn' X_train y_train clf 5 1 0")
         (auto simp: without_output_def)
    from cross_validate_Inr [OF r'] have "out' = report_lines fmt pn' nn' a b" by blast
    moreover from cross_validate_Inr [OF r] have "out = report_lines fmt pn nn a b" by blast
    ultimately show ?thesis using r' by simp
  qed
  show ?thesis
    unfolding magnetism_cv_cell_eq topology_cv_cell_eq
    using same [unfolded magnetism_cv_cell_eq topology_cv_cell_eq] other by blast
qed

theorem magnetism_topology_same_procedure_witness:
  "magnetism_cv_cell exact_format rev X_example y_example threshold_clf
     = Inr ([1, 2 / 3, 2 / 3, 0, 0], [0, 0, 0, 2 / 3, 1], threshold_clf\<lparr>state := 3\<rparr>,
            magnetism_output_example)
   \<and> topology_cv_cell exact_format rev X_example y_example threshold_clf
     = Inr ([1, 2 / 3, 2 / 3, 0, 0], [0, 0, 0, 2 / 3, 1], threshold_clf\<lparr>state := 3\<rparr>,
            topology_output_example)
   \<and> magnetism_output_example = report_lines exact_format ''FM'' ''AFM'' [1, 2 / 3, 2 / 3, 0, 0] [0, 0, 0, 2 / 3, 1]
   \<and> topology_output_example
       = report_lines exact_format ''Topological'' ''Trivial'' [1, 2 / 3, 2 / 3, 0, 0] [0, 0, 0, 2 / 3, 1]"
  using magnetism_topology_same_procedure [of exact_format rev X_example y_example threshold_clf
      "[1, 2 / 3, 2 / 3, 0, 0]" "[0, 0, 0, 2 / 3, 1]" "threshold_clf\<lparr>state := 3\<rparr>" magnetism_output_example]
    magnetism_topology_same_procedure [of exact_format rev X_example y_example threshold_clf
      "[1, 2 / 3, 2 / 3, 0, 0]" "[0, 0, 0, 2 / 3, 1]" "threshold_clf\<lparr>state := 3\<rparr>" topology_output_example]
    magnetism_example topology_example
  by simp

subsection \<open>The printed lines\<close>

lemma length_str_nat: "n < 10 ^ d \<Longrightarrow> 0 < d \<Longrightarrow> length (str_nat n) \<le> d"
proof (induction n arbitrary: d rule: str_nat.induct)
  case (1 n)
  show ?case
  proof (cases "n < 10")
    case True
    then show ?thesis using "1.prems" by (subst str_nat.simps) simp
  next
    case False
    obtain d' where d: "d = Suc d'" using "1.prems"(2) by (cases d) auto
    have "d' \<noteq> 0" using False "1.prems"(1) d by (cases d') auto
    moreover have "n div 10 < 10 ^ d'"
      using "1.prems"(1) d by (simp add: less_mult_imp_div_less mult.commute)
    ultimately have "length (str_nat (n div 10)) \<le> d'"
      using "1.IH" [OF False] by simp
    then show ?thesis using False d by (subst str_nat.simps) simp
  qed
qed

lemma length_zero_pad_fraction:
  "length (zero_pad (Suc prec) (str_nat (m mod 10 ^ Suc prec))) = Suc prec"
proof -
  have "m mod 10 ^ Suc prec < 10 ^ Suc prec" by simp
  then have "length (str_nat (m mod 10 ^ Suc prec)) \<le> Suc prec"
    by (rule length_str_nat) simp
  then show ?thesis by (simp add: zero_pad_def)
qed

lemma round_half_even_error: "\<bar>real_of_int (round_half_even x) - x\<bar> \<le> 1 / 2"
proof -
  have "of_int \<lfloor>x\<rfloor> \<le> x" "x < of_int \<lfloor>x\<rfloor> + 1" by linarith+
  then show ?thesis
    by (auto simp: round_half_even_def Let_def)
qed

lemma std_population: "std xs = sqrt ((\<Sum>x\<leftarrow>xs. (x - mean xs)\<^sup>2) / real (length xs))"
  by (simp add: std_def mean_def [of "map _ _"])

lemma round_half_even_nonneg: "0 \<le> x \<Longrightarrow> 0 \<le> round_half_even x"
  by (auto simp: round_half_even_def Let_def)

lemma nearest_formatter_exact: "nearest_formatter exact_format"
  unfolding nearest_formatter_def
proof (intro allI)
  fix prec :: nat and x :: real
  let ?r = "round_half_even (\<bar>x\<bar> * 10 ^ prec)"
  have "0 \<le> ?r" by (rule round_half_even_nonneg) simp
  then have "real (nat ?r) = real_of_int ?r" by simp
  then have "\<bar>real (nat ?r) - \<bar>x\<bar> * 10 ^ prec\<bar> \<le> 1 / 2"
    using round_half_even_error [of "\<bar>x\<bar> * 10 ^ prec"] by simp
  then show "\<exists>m::nat. \<bar>real m - \<bar>x\<bar> * 10 ^ prec\<bar> \<le> 1 / 2
                   \<and> exact_format prec x = fixed_point_text prec (x < 0) m"
    by (auto simp: exact_format_def)
qed

text \<open>
  Claim C6.  A cross-validation cell that completes has printed, for each fold
  \<open>k = 0, ..., 4\<close> in order, the line \<^verbatim>\<open>[fold k] FM score: \<close> followed by the
  positive-label F1 score converted with three decimals, then the same line for AFM and the
  negative-label score; and after the folds one line per class,
  \<^verbatim>\<open>FM Mean: m median: d stdev: s\<close> and the same for AFM, where \<open>m\<close>, \<open>d\<close>
  and \<open>s\<close> are the mean, the median and the population standard deviation (the root
  of the sum of squared deviations divided by the number 5 of scores, not by 4), each
  converted with two decimals.  The topology cell prints the same with the class names
  Topological and Trivial.  This holds for every conversion \<open>fmt\<close> of numbers to text.
  For a conversion that rounds to the nearest decimal, a number converted with \<open>d > 0\<close>
  decimals is printed as sign, integer digits, a point and exactly \<open>d\<close> digits, which
  denote a whole number of units within half a unit of the number's magnitude.
\<close>

theorem console_output_format:
  "(magnetism_cv_cell fmt shuffle X_train y_train clf = Inr (fm_scores, afm_scores, clf', out)
     \<longrightarrow> out
       = concat (map (\<lambda>k. [''[fold '' @ str_nat k @ ''] FM score: '' @ fmt 3 (fm_scores ! k),
                           ''[fold '' @ str_nat k @ ''] AFM score: '' @ fmt 3 (afm_scores ! k)])
                  [0..<5])
         @ [''FM Mean: '' @ fmt 2 (mean fm_scores)
              @ '' median: '' @ fmt 2 (median fm_scores)
              @ '' stdev: '' @ fmt 2 (sqrt ((\<Sum>x\<leftarrow>fm_scores. (x - mean fm_scores)\<^sup>2) / 5)),
            ''AFM Mean: '' @ fmt 2 (mean afm_scores)
              @ '' median: '' @ fmt 2 (median afm_scores)
              @ '' stdev: '' @ fmt 2 (sqrt ((\<Sum>x\<leftarrow>afm_scores. (x - mean afm_scores)\<^sup>2) / 5))])
   \<and> (topology_cv_cell fmt shuffle X_train y_train clf = Inr (topo_scores, triv_scores, clf'', out')
     \<longrightarrow> out'
       = concat (map (\<lambda>k. [''[fold '' @ str_nat k @ ''] Topological score: '' @ fmt 3 (topo_scores ! k),
                           ''[fold '' @ str_nat k @ ''] Trivial score: '' @ fmt 3 (triv_scores ! k)])
                  [0..<5])
         @ [''Topological Mean: '' @ fmt 2 (mean topo_scores)
              @ '' median: '' @ fmt 2 (median topo_scores)
              @ '' stdev: '' @ fmt 2 (sqrt ((\<Sum>x\<leftarrow>topo_scores. (x - mean topo_scores)\<^sup>2) / 5)),
            ''Trivial Mean: '' @ fmt 2 (mean triv_scores)
              @ '' median: '' @ fmt 2 (median triv_scores)
              @ '' stdev: '' @ fmt 2 (sqrt ((\<Sum>x\<leftarrow>triv_scores. (x - mean triv_scores)\<^sup>2) / 5))])
   \<and> (nearest_formatter fmt
     \<longrightarrow> (\<exists>m::nat. \<bar>real m - \<bar>x\<bar> * 10 ^ Suc prec\<bar> \<le> 1 / 2
            \<and> fmt (Suc prec) x
                = (if x < 0 then ''-'' else '''') @ str_nat (m div 10 ^ Suc prec) @ ''.''
                  @ zero_pad (Suc prec) (str_nat (m mod 10 ^ Suc prec))
            \<and> length (zero_pad (Suc prec) (str_nat (m mod 10 ^ Suc prec))) = Suc prec))"
proof -
  have gen: "out = concat (map (\<lambda>k. [''[fold '' @ str_nat k @ ''] '' @ pn @ '' score: '' @ fmt 3 (a ! k),
                           ''[fold '' @ str_nat k @ ''] '' @ nn @ '' score: '' @ fmt 3 (b ! k)])
                  [0..<5])
         @ [pn @ '' Mean: '' @ fmt 2 (mean a)
              @ '' median: '' @ fmt 2 (median a)
              @ '' stdev: '' @ fmt 2 (sqrt ((\<Sum>x\<leftarrow>a. (x - mean a)\<^sup>2) / 5)),
            nn @ '' Mean: '' @ fmt 2 (mean b)
              @ '' median: '' @ fmt 2 (median b)
              @ '' stdev: '' @ fmt 2 (sqrt ((\<Sum>x\<leftarrow>b. (x - mean b)\<^sup>2) / 5))]"
    if r: "cross_validate fmt shuffle pn nn X_train y_train clf 5 1 0 = Inr (a, b, c, out)"
    for pn nn a b c out
  proof -
    from cross_validate_Inr [OF r] have l: "length a = 5" "length b = 5"
      and o: "out = report_lines fmt pn nn a b" by blast+
    show ?thesis
      unfolding o report_lines_def summary_line_def fold_lines_def std_population l by simp
  qed
  have near: "\<exists>m::nat. \<bar>real m - \<bar>x\<bar> * 10 ^ Suc prec\<bar> \<le> 1 / 2
            \<and> fmt (Suc prec) x
                = (if x < 0 then ''-'' else '''') @ str_nat (m div 10 ^ Suc prec) @ ''.''
                  @ zero_pad (Suc prec) (str_nat (m mod 10 ^ Suc prec))
            \<and> length (zero_pad (Suc prec) (str_nat (m mod 10 ^ Suc prec))) = Suc prec"
    if "nearest_formatter fmt"
  proof -
    from that obtain m :: nat where
      m: "\<bar>real m - \<bar>x\<bar> * 10 ^ Suc prec\<bar> \<le> 1 / 2"
         "fmt (Suc prec) x = fixed_point_text (Suc prec) (x < 0) m"
      unfolding nearest_formatter_def by blast
    from m(2) have "fmt (Suc prec) x
                = (if x < 0 then ''-'' else '''') @ str_nat (m div 10 ^ Suc prec) @ ''.''
                  @ zero_pad (Suc prec) (str_nat (m mod 10 ^ Suc prec))"
      by (simp add: fixed_point_text_def)
    with m(1) length_zero_pad_fraction [of prec m] show ?thesis by blast
  qed
  have mag: "out
       = concat (map (\<lambda>k. [''[fold '' @ str_nat k @ ''] FM score: '' @ fmt 3 (fm_scores ! k),
                           ''[fold '' @ str_nat k @ ''] AFM score: '' @ fmt 3 (afm_scores ! k)])
                  [0..<5])
         @ [''FM Mean: '' @ fmt 2 (mean fm_scores)
              @ '' median: '' @ fmt 2 (median fm_scores)
              @ '' stdev: '' @ fmt 2 (sqrt ((\<Sum>x\<leftarrow>fm_scores. (x - mean fm_scores)\<^sup>2) / 5)),
            ''AFM Mean: '' @ fmt 2 (mean afm_scores)
              @ '' median: '' @ fmt 2 (median afm_scores)
              @ '' stdev: '' @ fmt 2 (sqrt ((\<Sum>x\<leftarrow>afm_scores. (x - mean afm_scores)\<^sup>2) / 5))]"
    if "magnetism_cv_cell fmt shuffle X_train y_train clf = Inr (fm_scores, afm_scores, clf', out)"
    using gen [of "''FM''" "''AFM''" fm_scores afm_scores clf' out] that
    unfolding magnetism_cv_cell_eq by simp
  have top: "out'
       = concat (map (\<lambda>k. [''[fold '' @ str_nat k @ ''] Topological score: '' @ fmt 3 (topo_scores ! k),
                           ''[fold '' @ str_nat k @ ''] Trivial score: '' @ fmt 3 (triv_scores ! k)])
                  [0..<5])
         @ [''Topological Mean: '' @ fmt 2 (mean topo_scores)
              @ '' median: '' @ fmt 2 (median topo_scores)
              @ '' stdev: '' @ fmt 2 (sqrt ((\<Sum>x\<leftarrow>topo_scores. (x - mean topo_scores)\<^sup>2) / 5)),
            ''Trivial Mean: '' @ fmt 2 (mean triv_scores)
              @ '' median: '' @ fmt 2 (median triv_scores)
              @ '' stdev: '' @ fmt 2 (sqrt ((\<Sum>x\<leftarrow>triv_scores. (x - mean triv_scores)\<^sup>2) / 5))]"
    if "topology_cv_cell fmt shuffle X_train y_train clf = Inr (topo_scores, triv_scores, clf'', out')"
    using gen [of "''Topological''" "''Trivial''" topo_scores triv_scores clf'' out'] that
    unfolding topology_cv_cell_eq by simp
  from mag top near show ?thesis by blast
qed

lemma exact_format_example: "exact_format 3 (2 / 3) = ''0.667''"
  by code_simp

theorem console_output_format_witness:
  "magnetism_cv_cell exact_format rev X_example y_example threshold_clf
     = Inr ([1, 2 / 3, 2 / 3, 0, 0], [0, 0, 0, 2 / 3, 1], threshold_clf\<lparr>state := 3\<rparr>,
            magnetism_output_example)
   \<and> topology_cv_cell exact_format rev X_example y_example threshold_clf
     = Inr ([1, 2 / 3, 2 / 3, 0, 0], [0, 0, 0, 2 / 3, 1], threshold_clf\<lparr>state := 3\<rparr>,
            topology_output_example)
   \<and> nearest_formatter exact_format
   \<and> magnetism_output_example
       = concat (map (\<lambda>k. [''[fold '' @ str_nat k @ ''] FM score: '' @ exact_format 3 ([1, 2 / 3, 2 / 3, 0, 0] ! k),
                           ''[fold '' @ str_nat k @ ''] AFM score: '' @ exact_format 3 ([0, 0, 0, 2 / 3, 1] ! k)])
                  [0..<5])
         @ [''FM Mean: '' @ exact_format 2 (mean [1, 2 / 3, 2 / 3, 0, 0])
              @ '' median: '' @ exact_format 2 (median [1, 2 / 3, 2 / 3, 0, 0])
              @ '' stdev: '' @ exact_format 2
                   (sqrt ((\<Sum>x\<leftarrow>[1, 2 / 3, 2 / 3, 0, 0]. (x - mean [1, 2 / 3, 2 / 3, 0, 0])\<^sup>2) / 5)),
            ''AFM Mean: '' @ exact_format 2 (mean [0, 0, 0, 2 / 3, 1])
              @ '' median: '' @ exact_format 2 (median [0, 0, 0, 2 / 3, 1])
              @ '' stdev: '' @ exact_format 2
                   (sqrt ((\<Sum>x\<leftarrow>[0, 0, 0, 2 / 3, 1]. (x - mean [0, 0, 0, 2 / 3, 1])\<^sup>2) / 5))]
   \<and> exact_format 3 (2 / 3) = ''0.667''
   \<and> (\<exists>m::nat. \<bar>real m - \<bar>2 / 3\<bar> * 10 ^ Suc 2\<bar> \<le> 1 / 2
          \<and> exact_format (Suc 2) (2 / 3)
              = (if (2 / 3 :: real) < 0 then ''-'' else '''') @ str_nat (m div 10 ^ Suc 2) @ ''.''
                @ zero_pad (Suc 2) (str_nat (m mod 10 ^ Suc 2))
          \<and> length (zero_pad (Suc 2) (str_nat (m mod 10 ^ Suc 2))) = Suc 2)"
  using console_output_format [where fmt = exact_format and shuffle = rev and X_train = X_example
      and y_train = y_example and clf = threshold_clf
      and fm_scores = "[1, 2 / 3, 2 / 3, 0, 0]" and afm_scores = "[0, 0, 0, 2 / 3, 1]"
      and clf' = "threshold_clf\<lparr>state := 3\<rparr>" and out = magnetism_output_example
      and topo_scores = "[1, 2 / 3, 2 / 3, 0, 0]" and triv_scores = "[0, 0, 0, 2 / 3, 1]"
      and clf'' = "threshold_clf\<lparr>state := 3\<rparr>" and out' = topology_output_example
      and x = "2 / 3" and prec = 2]
    magnetism_example topology_example nearest_formatter_exact exact_format_example
  by blast

subsection \<open>The held-out cells\<close>

lemma matches_card:
  assumes "length y_true = length y_pred"
  shows "length (filter (\<lambda>(t, p). t = p) (zip y_true y_pred))
       = card {i. i < length y_true \<and> y_pred ! i = y_true ! i}"
proof -
  have "length (filter (\<lambda>(t, p). t = p) (zip y_true y_pred))
      = card {i. i < length (zip y_true y_pred) \<and> (\<lambda>(t, p). t = p) (zip y_true y_pred ! i)}"
    by (rule length_filter_conv_card)
  also have "{i. i < length (zip y_true y_pred) \<and> (\<lambda>(t, p). t = p) (zip y_true y_pred ! i)}
      = {i. i < length y_true \<and> y_pred ! i = y_true ! i}"
    using assms by auto
  finally show ?thesis .
qed

lemma accuracy_example:
  "accuracy_cell exact_round (threshold_clf\<lparr>state := 3\<rparr>) X_test_example y_test_example = Inr (3 / 4)"
  by code_simp

lemma nearest_rounder_exact: "nearest_rounder exact_round"
  unfolding nearest_rounder_def
proof (intro allI conjI)
  fix x :: real and n :: nat
  show "\<exists>m::int. exact_round x n = of_int m / 10 ^ n"
    by (auto simp: exact_round_def)
  have e: "\<bar>real_of_int (round_half_even (x * 10 ^ n)) - x * 10 ^ n\<bar> \<le> 1 / 2"
    by (rule round_half_even_error)
  have "exact_round x n - x = (real_of_int (round_half_even (x * 10 ^ n)) - x * 10 ^ n) / 10 ^ n"
    by (simp add: exact_round_def diff_divide_distrib)
  then have "\<bar>exact_round x n - x\<bar>
      = \<bar>real_of_int (round_half_even (x * 10 ^ n)) - x * 10 ^ n\<bar> / 10 ^ n"
    by (simp add: abs_divide)
  also have "\<dots> \<le> (1 / 2) / 10 ^ n"
    using e by (rule divide_right_mono) simp
  finally show "\<bar>exact_round x n - x\<bar> \<le> 1 / (2 * 10 ^ n)"
    by simp
qed

lemma exact_round_examples:
  "exact_round (252 / 315) 2 = 4 / 5" "exact_round (2 / 3) 2 = 67 / 100"
  by code_simp+

text \<open>
  Claim C4.  On a non-empty held-out set for which the classifier returns one prediction
  per sample, the accuracy cell returns what Python's \<^verbatim>\<open>round\<close> makes, at two decimals,
  of the fraction of held-out samples whose predicted label equals the ground-truth label.
  For a rounding that rounds to the nearest decimal, the result is a whole number of
  hundredths and differs from that fraction by at most half a hundredth.
\<close>

theorem holdout_accuracy:
  assumes "length (predict clf X_test) = length y_test" and "y_test \<noteq> []"
  shows "accuracy_cell rnd clf X_test y_test
       = Inr (rnd (real (card {i. i < length y_test \<and> predict clf X_test ! i = y_test ! i})
                     / real (length y_test)) 2)
     \<and> (nearest_rounder rnd
        \<longrightarrow> (\<exists>acc. \<exists>m::int. accuracy_cell rnd clf X_test y_test = Inr acc \<and> acc = of_int m / 100
              \<and> \<bar>acc - real (card {i. i < length y_test \<and> predict clf X_test ! i = y_test ! i})
                          / real (length y_test)\<bar> \<le> 1 / 200))"
proof -
  let ?frac = "real (card {i. i < length y_test \<and> predict clf X_test ! i = y_test ! i})
                 / real (length y_test)"
  have cell: "accuracy_cell rnd clf X_test y_test = Inr (rnd ?frac 2)"
    using assms matches_card [of y_test "predict clf X_test"]
    by (simp add: accuracy_cell_def score_def accuracy_score_def)
  have "\<exists>acc. \<exists>m::int. accuracy_cell rnd clf X_test y_test = Inr acc \<and> acc = of_int m / 100
              \<and> \<bar>acc - ?frac\<bar> \<le> 1 / 200" if "nearest_rounder rnd"
  proof -
    from that obtain m :: int where "rnd ?frac 2 = of_int m / 10 ^ 2"
      and "\<bar>rnd ?frac 2 - ?frac\<bar> \<le> 1 / (2 * 10 ^ 2)"
      unfolding nearest_rounder_def by blast
    then have "rnd ?frac 2 = of_int m / 100" "\<bar>rnd ?frac 2 - ?frac\<bar> \<le> 1 / 200"
      by simp_all
    with cell show ?thesis by blast
  qed
  with cell show ?thesis by blast
qed

lemma accuracy_small_example:
  "accuracy_cell exact_round (threshold_clf\<lparr>state := 3\<rparr>) X_test_small y_test_small = Inr (67 / 100)"
  by code_simp

theorem holdout_accuracy_witness:
  "length (predict (threshold_clf\<lparr>state := 3\<rparr>) X_test_small) = length y_test_small
   \<and> y_test_small \<noteq> []
   \<and> nearest_rounder exact_round
   \<and> accuracy_cell exact_round (threshold_clf\<lparr>state := 3\<rparr>) X_test_small y_test_small
       = Inr (exact_round (real (card {i. i < length y_test_small
                 \<and> predict (threshold_clf\<lparr>state := 3\<rparr>) X_test_small ! i = y_test_small ! i})
                          / real (length y_test_small)) 2)
   \<and> accuracy_cell exact_round (threshold_clf\<lparr>state := 3\<rparr>) X_test_small y_test_small = Inr (67 / 100)
   \<and> (\<exists>m::int. (67 / 100 :: real) = of_int m / 100
          \<and> \<bar>67 / 100 - real (card {i. i < length y_test_small
                 \<and> predict (threshold_clf\<lparr>state := 3\<rparr>) X_test_small ! i = y_test_small ! i})
                          / real (length y_test_small)\<bar> \<le> 1 / 200)"
proof -
  have h1: "length (predict (threshold_clf\<lparr>state := 3\<rparr>) X_test_small) = length y_test_small"
    by code_simp
  have h2: "y_test_small \<noteq> []"
    by (simp add: y_test_small_def)
  note t = holdout_accuracy [where rnd = exact_round, OF h1 h2]
  from t nearest_rounder_exact obtain acc and m :: int where
    a: "accuracy_cell exact_round (threshold_clf\<lparr>state := 3\<rparr>) X_test_small y_test_small = Inr acc"
       "acc = of_int m / 100"
       "\<bar>acc - real (card {i. i < length y_test_small
                 \<and> predict (threshold_clf\<lparr>state := 3\<rparr>) X_test_small ! i = y_test_small ! i})
                          / real (length y_test_small)\<bar> \<le> 1 / 200"
    by blast
  from a(1) accuracy_small_example have acc: "acc = 67 / 100" by simp
  have near: "\<exists>m::int. (67 / 100 :: real) = of_int m / 100
          \<and> \<bar>67 / 100 - real (card {i. i < length y_test_small
                 \<and> predict (threshold_clf\<lparr>state := 3\<rparr>) X_test_small ! i = y_test_small ! i})
                          / real (length y_test_small)\<bar> \<le> 1 / 200"
    using a(2,3) unfolding acc by blast
  from t have cell: "accuracy_cell exact_round (threshold_clf\<lparr>state := 3\<rparr>) X_test_small y_test_small
       = Inr (exact_round (real (card {i. i < length y_test_small
                 \<and> predict (threshold_clf\<lparr>state := 3\<rparr>) X_test_small ! i = y_test_small ! i})
                          / real (length y_test_small)) 2)"
    by blast
  from h1 h2 nearest_rounder_exact cell accuracy_small_example near show ?thesis
    by (intro conjI)
qed

lemma unique_labels_binary:
  assumes "set y_true \<union> set y_pred \<subseteq> {0, 1}" "length (unique_labels y_true y_pred) = 2"
  shows "unique_labels y_true y_pred = [0, 1]"
proof -
  let ?S = "set y_true \<union> set y_pred"
  have "card ?S = card {0, 1::int}" using assms(2) by (simp add: length_unique_labels)
  then have S: "?S = {0, 1}" using assms(1) by (simp add: card_subset_eq)
  have "unique_labels y_true y_pred = sorted_list_of_set (set (y_true @ y_pred))"
    unfolding unique_labels_def by (simp only: sorted_list_of_set_sort_remdups)
  also have "\<dots> = sorted_list_of_set {0, 1::int}" using S by simp
  also have "\<dots> = [0, 1]" by simp
  finally show ?thesis .
qed

lemma classification_report_rows:
  assumes "classification_report y_true y_pred [name0, name1] = Inr rep"
    and "set y_true \<union> set y_pred \<subseteq> {0, 1}"
  shows "class_rows rep = [class_row y_true y_pred (name0, 0), class_row y_true y_pred (name1, 1)]"
proof -
  from assms(1) have l: "length (unique_labels y_true y_pred) = 2"
    by (auto simp: classification_report_def Let_def split: if_splits)
  have u: "unique_labels y_true y_pred = [0, 1]"
    using assms(2) l by (rule unique_labels_binary)
  from assms(1) show ?thesis
    by (auto simp: classification_report_def Let_def u accuracy_score_def split: if_splits)
qed

lemma report_example:
  "magnetism_report_cell (threshold_clf\<lparr>state := 3\<rparr>) X_test_example y_test_example
     = Inr magnetism_report_example"
  "topology_report_cell (threshold_clf\<lparr>state := 3\<rparr>) X_test_example y_test_example
     = Inr topology_report_example"
  by code_simp+

lemma evaluate_holdout_example:
  "evaluate_holdout exact_round X_test_example y_test_example (threshold_clf\<lparr>state := 3\<rparr>) [''AFM'', ''FM'']
     = Inr (3 / 4, magnetism_report_example)"
  by code_simp

text \<open>
  Claim C9.  With held-out and predicted labels among 0 and 1, whenever a report cell
  produces its report, the per-class rows are two, in index order: the first carries the
  first class name (AFM, Trivial) and the precision, recall, F1 and support of label 0,
  the second the second class name (FM, Topological) and those of label 1.  The same
  holds for \<open>evaluate_holdout\<close> with any two class names.
\<close>

theorem report_class_names:
  assumes "set y_test \<union> set (predict clf X_test) \<subseteq> {0, 1}"
  shows "(magnetism_report_cell clf X_test y_test = Inr rep
            \<longrightarrow> class_rows rep = [class_row y_test (predict clf X_test) (''AFM'', 0),
                                 class_row y_test (predict clf X_test) (''FM'', 1)])
       \<and> (topology_report_cell clf X_test y_test = Inr rep'
            \<longrightarrow> class_rows rep' = [class_row y_test (predict clf X_test) (''Trivial'', 0),
                                  class_row y_test (predict clf X_test) (''Topological'', 1)])
       \<and> (evaluate_holdout rnd X_test y_test clf [name0, name1] = Inr (acc, rep'')
            \<longrightarrow> class_rows rep'' = [class_row y_test (predict clf X_test) (name0, 0),
                                   class_row y_test (predict clf X_test) (name1, 1)])
       \<and> row_name (class_row y_test (predict clf X_test) (name, l)) = name
       \<and> row_support (class_row y_test (predict clf X_test) (name, l)) = count_list y_test l"
proof -
  have "class_rows rep'' = [class_row y_test (predict clf X_test) (name0, 0),
                            class_row y_test (predict clf X_test) (name1, 1)]"
    if "evaluate_holdout rnd X_test y_test clf [name0, name1] = Inr (acc, rep'')"
  proof -
    from that have "classification_report y_test (predict clf X_test) [name0, name1] = Inr rep''"
      by (auto simp: evaluate_holdout_def split: sum.splits)
    then show ?thesis using assms by (rule classification_report_rows)
  qed
  then show ?thesis
    using classification_report_rows [OF _ assms]
    by (simp add: magnetism_report_cell_def topology_report_cell_def class_row_def true_sum_def)
qed

theorem report_class_names_witness:
  "set y_test_example \<union> set (predict (threshold_clf\<lparr>state := 3\<rparr>) X_test_example) \<subseteq> {0, 1}
   \<and> magnetism_report_cell (threshold_clf\<lparr>state := 3\<rparr>) X_test_example y_test_example
       = Inr magnetism_report_example
   \<and> topology_report_cell (threshold_clf\<lparr>state := 3\<rparr>) X_test_example y_test_example
       = Inr topology_report_example
   \<and> evaluate_holdout exact_round X_test_example y_test_example (threshold_clf\<lparr>state := 3\<rparr>) [''AFM'', ''FM'']
       = Inr (3 / 4, magnetism_report_example)
   \<and> class_rows magnetism_report_example
       = [class_row y_test_example (predict (threshold_clf\<lparr>state := 3\<rparr>) X_test_example) (''AFM'', 0),
          class_row y_test_example (predict (threshold_clf\<lparr>state := 3\<rparr>) X_test_example) (''FM'', 1)]
   \<and> class_rows topology_report_example
       = [class_row y_test_example (predict (threshold_clf\<lparr>state := 3\<rparr>) X_test_example) (''Trivial'', 0),
          class_row y_test_example (predict (threshold_clf\<lparr>state := 3\<rparr>) X_test_example) (''Topological'', 1)]"
proof -
  have h: "set y_test_example \<union> set (predict (threshold_clf\<lparr>state := 3\<rparr>) X_test_example) \<subseteq> {0, 1}"
    by code_simp
  from report_class_names [OF h, of magnetism_report_example topology_report_example
      exact_round "''AFM''" "''FM''" "3 / 4" magnetism_report_example]
    h report_example evaluate_holdout_example
  show ?thesis by blast
qed

subsection \<open>The classifier after the loop\<close>

lemma state_fit [simp]: "state (fit c A b) = fit_method c (state c) A b"
  by (simp add: fit_def)

lemma magnetism_section_example:
  "magnetism_section exact_format exact_round rev X_example y_example threshold_clf X_test_example y_test_example
     = Inr (([1, 2 / 3, 2 / 3, 0, 0], [0, 0, 0, 2 / 3, 1], threshold_clf\<lparr>state := 3\<rparr>,
             magnetism_output_example), 3 / 4, magnetism_report_example)"
  by (simp add: magnetism_section_def magnetism_example accuracy_example report_example)

lemma topology_section_example:
  "topology_section exact_format exact_round rev X_example y_example threshold_clf X_test_example y_test_example
     = Inr (([1, 2 / 3, 2 / 3, 0, 0], [0, 0, 0, 2 / 3, 1], threshold_clf\<lparr>state := 3\<rparr>,
             topology_output_example), 3 / 4, topology_report_example)"
  by (simp add: topology_section_def topology_example accuracy_example report_example)

lemma last_fold_example:
  "fit_method threshold_clf s (take_rows X_example (fst (folds_example ! 4)))
     (take_rows y_example (fst (folds_example ! 4))) = 3"
  by code_simp

text \<open>
  Claim C1.  Whenever the magnetism cells complete, every fold's \<^verbatim>\<open>fit\<close> call has
  replaced the classifier's state by what its fit method computes from the fold's training
  rows; the classifier object that the held-out cells read is the one the fit call of the
  last fold (fold 4) left, with no further fit in between; for a fit method that does not
  depend on the previous state, that state is a function of the last fold's training subset
  alone; and the reported accuracy and the report are computed from the predictions made
  with exactly that state.
\<close>

theorem holdout_uses_last_fold_state:
  assumes run: "magnetism_section fmt rnd shuffle X_train y_train clf X_test y_test
                  = Inr ((fm_scores, afm_scores, clf', out), acc, rep)"
  shows "\<exists>folds. KFold_split shuffle 5 X_train y_train = Inr folds \<and> length folds = 5
     \<and> (\<forall>i<5. state (fit_folds X_train y_train (take (Suc i) folds) clf)
               = fit_method clf (state (fit_folds X_train y_train (take i folds) clf))
                   (take_rows X_train (fst (folds ! i))) (take_rows y_train (fst (folds ! i))))
     \<and> clf' = fit (fit_folds X_train y_train (take 4 folds) clf)
                 (take_rows X_train (fst (folds ! 4))) (take_rows y_train (fst (folds ! 4)))
     \<and> ((\<forall>s s' A b. fit_method clf s A b = fit_method clf s' A b)
          \<longrightarrow> (\<forall>s. state clf' = fit_method clf s (take_rows X_train (fst (folds ! 4)))
                                    (take_rows y_train (fst (folds ! 4)))))
     \<and> (\<exists>a. accuracy_score y_test (predict_method clf (state clf') X_test) = Inr a
            \<and> acc = rnd a 2)
     \<and> classification_report y_test (predict_method clf (state clf') X_test) [''AFM'', ''FM''] = Inr rep"
proof -
  from run have cv: "magnetism_cv_cell fmt shuffle X_train y_train clf = Inr (fm_scores, afm_scores, clf', out)"
    and ac: "accuracy_cell rnd clf' X_test y_test = Inr acc"
    and rp: "magnetism_report_cell clf' X_test y_test = Inr rep"
    by (auto simp: magnetism_section_def split: sum.splits prod.splits)
  from cross_validate_Inr [OF cv [unfolded magnetism_cv_cell_eq]] obtain folds where
    f: "KFold_split shuffle 5 X_train y_train = Inr folds" "length folds = 5"
       "clf' = fit_folds X_train y_train folds clf"
    by blast
  have step: "fit_folds X_train y_train (take (Suc i) folds) clf
        = fit (fit_folds X_train y_train (take i folds) clf)
            (take_rows X_train (fst (folds ! i))) (take_rows y_train (fst (folds ! i)))" if "i < 5" for i
    using that f(2) by (intro fit_folds_take_Suc) simp
  have states: "state (fit_folds X_train y_train (take (Suc i) folds) clf)
               = fit_method clf (state (fit_folds X_train y_train (take i folds) clf))
                   (take_rows X_train (fst (folds ! i))) (take_rows y_train (fst (folds ! i)))"
    if "i < 5" for i
    unfolding step [OF that] by simp
  have "take (Suc 4) folds = folds" using f(2) by simp
  with step [of 4] f(3) have last: "clf' = fit (fit_folds X_train y_train (take 4 folds) clf)
                 (take_rows X_train (fst (folds ! 4))) (take_rows y_train (fst (folds ! 4)))"
    by simp
  have pm: "predict_method clf' = predict_method clf"
    unfolding f(3) by simp
  have ow: "\<forall>s. state clf' = fit_method clf s (take_rows X_train (fst (folds ! 4)))
                                    (take_rows y_train (fst (folds ! 4)))"
    if "\<forall>s s' A b. fit_method clf s A b = fit_method clf s' A b"
    unfolding last using that by simp
  from ac have acc: "\<exists>a. accuracy_score y_test (predict_method clf (state clf') X_test) = Inr a
            \<and> acc = rnd a 2"
    by (auto simp: accuracy_cell_def score_def predict_def pm split: sum.splits)
  from rp have rep: "classification_report y_test (predict_method clf (state clf') X_test) [''AFM'', ''FM''] = Inr rep"
    by (simp add: magnetism_report_cell_def predict_def pm)
  from f(1,2) states last ow acc rep show ?thesis by blast
qed

theorem holdout_uses_last_fold_state_witness:
  "magnetism_section exact_format exact_round rev X_example y_example threshold_clf X_test_example y_test_example
     = Inr (([1, 2 / 3, 2 / 3, 0, 0], [0, 0, 0, 2 / 3, 1], threshold_clf\<lparr>state := 3\<rparr>,
             magnetism_output_example), 3 / 4, magnetism_report_example)
   \<and> (\<forall>s s' A b. fit_method threshold_clf s A b = fit_method threshold_clf s' A b)
   \<and> (\<forall>s. state (threshold_clf\<lparr>state := 3\<rparr>)
            = fit_method threshold_clf s (take_rows X_example (fst (folds_example ! 4)))
                (take_rows y_example (fst (folds_example ! 4))))
   \<and> (\<exists>a. accuracy_score y_test_example
             (predict_method threshold_clf (state (threshold_clf\<lparr>state := 3\<rparr>)) X_test_example) = Inr a
          \<and> 3 / 4 = exact_round a 2)"
proof -
  have ow: "\<forall>s s' A b. fit_method threshold_clf s A b = fit_method threshold_clf s' A b"
    by (simp add: threshold_clf_def threshold_fit_def)
  from holdout_uses_last_fold_state [OF magnetism_section_example] obtain folds where
    f: "KFold_split rev 5 X_example y_example = Inr folds"
       "(\<forall>s s' A b. fit_method threshold_clf s A b = fit_method threshold_clf s' A b)
          \<longrightarrow> (\<forall>s. state (threshold_clf\<lparr>state := 3\<rparr>)
                  = fit_method threshold_clf s (take_rows X_example (fst (folds ! 4)))
                                    (take_rows y_example (fst (folds ! 4))))"
       "\<exists>a. accuracy_score y_test_example
             (predict_method threshold_clf (state (threshold_clf\<lparr>state := 3\<rparr>)) X_test_example) = Inr a
          \<and> 3 / 4 = exact_round a 2"
    by blast
  from f(1) have "folds = folds_example" by (simp add: split_example)
  with f(2,3) ow magnetism_section_example show ?thesis by blast
qed

end
